theory Spec2Isabelle
  imports Complex_Main
begin

section \<open>JavaScript values\<close>

text \<open>
  The functions of \<^verbatim>\<open>src/script.js\<close> work on values that come out of
  \<^verbatim>\<open>JSON.parse\<close>, probe them field by field and rely on JavaScript's
  truthiness, optional chaining and coercions. The embedding therefore keeps the values
  dynamically typed.

  A number is a binary64 value: not-a-number, an infinity, or a finite value, which is a
  rational. Finite values are kept exact; the rounding of a decimal literal to the
  nearest binary64 is not modelled, so a decimal string stands for its exact value.
  Comparisons against \<open>9.0\<close>, \<open>7.0\<close>, \<open>4.0\<close> and \<open>90\<close> are exact in both
  readings. Negative zero is not distinguished from zero (the program cannot tell them
  apart).

  Strings are lists of characters and are read as ASCII text: case conversion touches the
  letters A to Z and a to z only, and white space is the ASCII white space.

  An object is the list of its own properties, each name once, as \<^verbatim>\<open>JSON.parse\<close>
  leaves it.

  \<open>Fun\<close> is a built-in function value. JSON data holds none, but reading the property
  \<^verbatim>\<open>fixed\<close> of a string yields \<^verbatim>\<open>String.prototype.fixed\<close>. The program
  never reads a property of such a value.
\<close>

datatype jsnum = NaN | Fin rat | PInf | NInf

datatype jsval =
    Undefined
  | Null
  | Bool bool
  | Num jsnum
  | Str string
  | Arr "jsval list"
  | Obj "(string \<times> jsval) list"
  | Fun string

text \<open>Every exception the modelled code can raise or every rejection it can meet.\<close>

datatype error = TypeError | SyntaxError | NetworkError

text \<open>A computation that may raise: \<open>Inl\<close> is the exception.\<close>

definition bindE :: "error + 'a \<Rightarrow> ('a \<Rightarrow> error + 'b) \<Rightarrow> error + 'b" where
  "bindE m f = (case m of Inl e \<Rightarrow> Inl e | Inr x \<Rightarrow> f x)"

text \<open>ToBoolean.\<close>

fun truthy :: "jsval \<Rightarrow> bool" where
  "truthy Undefined = False"
| "truthy Null = False"
| "truthy (Bool b) = b"
| "truthy (Num n) = (case n of NaN \<Rightarrow> False | Fin q \<Rightarrow> q \<noteq> 0 | PInf \<Rightarrow> True | NInf \<Rightarrow> True)"
| "truthy (Str s) = (s \<noteq> [])"
| "truthy (Arr xs) = True"
| "truthy (Obj kvs) = True"
| "truthy (Fun f) = True"

text \<open>\<^verbatim>\<open>a || b\<close> on values (the right operand has no effect of its own wherever it is used).\<close>

definition or_js :: "jsval \<Rightarrow> jsval \<Rightarrow> jsval" where
  "or_js a b = (if truthy a then a else b)"

text \<open>
  \<^verbatim>\<open>v.k\<close> for the property names the program reads from data. Reading from
  \<^verbatim>\<open>undefined\<close> or \<^verbatim>\<open>null\<close> raises. An object yields its own property
  (none of the names read lives on \<^verbatim>\<open>Object.prototype\<close>). Of the names read,
  only \<^verbatim>\<open>fixed\<close> exists on a primitive's prototype, for strings.
\<close>

fun get :: "jsval \<Rightarrow> string \<Rightarrow> error + jsval" where
  "get Undefined k = Inl TypeError"
| "get Null k = Inl TypeError"
| "get (Obj kvs) k = Inr (case map_of kvs k of Some v \<Rightarrow> v | None \<Rightarrow> Undefined)"
| "get (Str s) k = Inr (if k = ''fixed'' then Fun ''fixed'' else Undefined)"
| "get (Bool b) k = Inr Undefined"
| "get (Num n) k = Inr Undefined"
| "get (Arr xs) k = Inr Undefined"
| "get (Fun f) k = Inr Undefined"

text \<open>\<^verbatim>\<open>v?.k\<close>: short-circuits on \<^verbatim>\<open>undefined\<close> and \<^verbatim>\<open>null\<close>, so it never raises.\<close>

fun opt_get :: "jsval \<Rightarrow> string \<Rightarrow> jsval" where
  "opt_get (Obj kvs) k = (case map_of kvs k of Some v \<Rightarrow> v | None \<Rightarrow> Undefined)"
| "opt_get (Str s) k = (if k = ''fixed'' then Fun ''fixed'' else Undefined)"
| "opt_get v k = Undefined"

text \<open>\<^verbatim>\<open>v?.[0]\<close>: the first element of an array, the first character of a string,
  the property \<^verbatim>\<open>"0"\<close> of an object.\<close>

fun opt_index0 :: "jsval \<Rightarrow> jsval" where
  "opt_index0 (Arr xs) = (case xs of [] \<Rightarrow> Undefined | x # _ \<Rightarrow> x)"
| "opt_index0 (Str s) = (case s of [] \<Rightarrow> Undefined | c # _ \<Rightarrow> Str [c])"
| "opt_index0 (Obj kvs) = (case map_of kvs ''0'' of Some v \<Rightarrow> v | None \<Rightarrow> Undefined)"
| "opt_index0 v = Undefined"

text \<open>\<^verbatim>\<open>Array.prototype.find\<close> with a callback that may raise.\<close>

fun find_js :: "(jsval \<Rightarrow> error + bool) \<Rightarrow> jsval list \<Rightarrow> error + jsval" where
  "find_js p [] = Inr Undefined"
| "find_js p (x # xs) =
     (case p x of Inl e \<Rightarrow> Inl e | Inr b \<Rightarrow> if b then Inr x else find_js p xs)"

text \<open>\<^verbatim>\<open>v.find(cb)\<close>: only an array has a callable \<^verbatim>\<open>find\<close>.\<close>

fun call_find :: "(jsval \<Rightarrow> error + bool) \<Rightarrow> jsval \<Rightarrow> error + jsval" where
  "call_find p (Arr xs) = find_js p xs"
| "call_find p v = Inl TypeError"

text \<open>\<^verbatim>\<open>v?.find(cb)\<close>.\<close>

fun opt_find :: "(jsval \<Rightarrow> error + bool) \<Rightarrow> jsval \<Rightarrow> error + jsval" where
  "opt_find p Undefined = Inr Undefined"
| "opt_find p Null = Inr Undefined"
| "opt_find p v = call_find p v"

text \<open>What \<^verbatim>\<open>for (const x of v)\<close> iterates over: the elements of an array, the
  characters of a string; anything else is not iterable.\<close>

fun iter :: "jsval \<Rightarrow> error + jsval list" where
  "iter (Arr xs) = Inr xs"
| "iter (Str s) = Inr (map (\<lambda>c. Str [c]) s)"
| "iter v = Inl TypeError"

section \<open>Strings\<close>

definition is_ws :: "char \<Rightarrow> bool" where
  "is_ws c = (c \<in> set [CHR 0x09, CHR 0x0A, CHR 0x0B, CHR 0x0C, CHR 0x0D, CHR 0x20])"

definition trim :: "string \<Rightarrow> string" where
  "trim s = rev (dropWhile is_ws (rev (dropWhile is_ws s)))"

definition lower_char :: "char \<Rightarrow> char" where
  "lower_char c =
     (case map_of (zip ''ABCDEFGHIJKLMNOPQRSTUVWXYZ'' ''abcdefghijklmnopqrstuvwxyz'') c of
        Some d \<Rightarrow> d | None \<Rightarrow> c)"

definition upper_char :: "char \<Rightarrow> char" where
  "upper_char c =
     (case map_of (zip ''abcdefghijklmnopqrstuvwxyz'' ''ABCDEFGHIJKLMNOPQRSTUVWXYZ'') c of
        Some d \<Rightarrow> d | None \<Rightarrow> c)"

definition toLowerCase :: "string \<Rightarrow> string" where
  "toLowerCase s = map lower_char s"

definition toUpperCase :: "string \<Rightarrow> string" where
  "toUpperCase s = map upper_char s"

fun starts_with :: "string \<Rightarrow> string \<Rightarrow> bool" where
  "starts_with s [] = True"
| "starts_with [] (p # ps) = False"
| "starts_with (c # cs) (p # ps) = (c = p \<and> starts_with cs ps)"

text \<open>\<^verbatim>\<open>s.includes(p)\<close>.\<close>

fun includes_js :: "string \<Rightarrow> string \<Rightarrow> bool" where
  "includes_js [] p = (p = [])"
| "includes_js (c # cs) p = (starts_with (c # cs) p \<or> includes_js cs p)"

section \<open>Numbers out of strings\<close>

definition is_digit :: "char \<Rightarrow> bool" where
  "is_digit c = (c \<in> set ''0123456789'')"

definition digit_val :: "char \<Rightarrow> nat" where
  "digit_val c =
     (case map_of (zip ''0123456789abcdefABCDEF''
        [0, 1, 2, 3, 4, 5, 6, 7, 8, 9, 10, 11, 12, 13, 14, 15, 10, 11, 12, 13, 14, 15]) c of
        Some d \<Rightarrow> d | None \<Rightarrow> 0)"

definition digits_val :: "nat \<Rightarrow> string \<Rightarrow> nat" where
  "digits_val base s = foldl (\<lambda>acc c. acc * base + digit_val c) 0 s"

definition pow10 :: "int \<Rightarrow> rat" where
  "pow10 e = (if 0 \<le> e then 10 ^ nat e else 1 / 10 ^ nat (- e))"

text \<open>
  The exponent part of a decimal literal: \<^verbatim>\<open>e\<close> or \<^verbatim>\<open>E\<close>, an optional sign
  and at least one digit. Returns the exponent and the rest, or \<open>0\<close> and the input when
  there is no complete exponent part.
\<close>

definition parse_exponent :: "string \<Rightarrow> int \<times> string" where
  "parse_exponent s =
     (case s of
        [] \<Rightarrow> (0, s)
      | c # t \<Rightarrow>
          if c = CHR ''e'' \<or> c = CHR ''E'' then
            (let neg = (case t of [] \<Rightarrow> False | d # _ \<Rightarrow> d = CHR ''-'');
                 u = (case t of [] \<Rightarrow> t | d # r \<Rightarrow> if d = CHR ''+'' \<or> d = CHR ''-'' then r else t);
                 ed = takeWhile is_digit u
             in if ed = [] then (0, s)
                else ((if neg then - int (digits_val 10 ed) else int (digits_val 10 ed)),
                      dropWhile is_digit u))
          else (0, s))"

text \<open>
  The longest prefix that is an unsigned decimal literal of the string-to-number grammar
  (\<^verbatim>\<open>Infinity\<close>, digits with an optional fraction and exponent, or a fraction that
  starts with the point), with its value and the rest of the string; \<open>NaN\<close> when no
  prefix is one.
\<close>

definition parse_unsigned :: "string \<Rightarrow> jsnum \<times> string" where
  "parse_unsigned s =
     (if starts_with s ''Infinity'' then (PInf, drop 8 s)
      else
        let ip = takeWhile is_digit s;
            r1 = dropWhile is_digit s;
            has_point = (case r1 of [] \<Rightarrow> False | c # _ \<Rightarrow> c = CHR ''.'');
            fp = (if has_point then takeWhile is_digit (tl r1) else []);
            r2 = (if has_point then dropWhile is_digit (tl r1) else r1)
        in if ip = [] \<and> fp = [] then (NaN, s)
           else
             (let (e, r3) = parse_exponent r2
              in (Fin (rat_of_nat (digits_val 10 (ip @ fp)) / 10 ^ length fp * pow10 e), r3)))"

definition negate :: "jsnum \<Rightarrow> jsnum" where
  "negate n = (case n of NaN \<Rightarrow> NaN | Fin q \<Rightarrow> Fin (- q) | PInf \<Rightarrow> NInf | NInf \<Rightarrow> PInf)"

definition parse_decimal :: "string \<Rightarrow> jsnum \<times> string" where
  "parse_decimal s =
     (case s of
        [] \<Rightarrow> (NaN, s)
      | c # t \<Rightarrow>
          if c = CHR ''+'' then parse_unsigned t
          else if c = CHR ''-'' then (let (n, r) = parse_unsigned t in (negate n, r))
          else parse_unsigned s)"

text \<open>
  \<^verbatim>\<open>parseFloat(v)\<close>. The argument is converted to a string first; leading white space
  is skipped and the longest decimal prefix is read. A number converts to a string that
  reads back as the same number. An array converts to its elements joined by commas, of
  which only the first element can contribute a prefix (a comma ends every literal, and
  \<^verbatim>\<open>null\<close> and \<^verbatim>\<open>undefined\<close> elements convert to the empty string).
\<close>

fun parseFloat :: "jsval \<Rightarrow> jsnum" where
  "parseFloat (Num n) = n"
| "parseFloat (Str s) = fst (parse_decimal (dropWhile is_ws s))"
| "parseFloat (Arr []) = NaN"
| "parseFloat (Arr (x # xs)) = parseFloat x"
| "parseFloat v = NaN"

text \<open>
  Converting a value to a string or to a primitive raises exactly when it meets an object
  whose own property \<^verbatim>\<open>toString\<close> (JSON data, so not callable) hides the built-in
  one, either the value itself or an element of an array being joined.
\<close>

fun ToString_raises :: "jsval \<Rightarrow> bool" where
  "ToString_raises (Arr xs) = (\<exists>x \<in> set xs. ToString_raises x)"
| "ToString_raises (Obj kvs) = (''toString'' \<in> set (map fst kvs))"
| "ToString_raises v = False"

text \<open>\<^verbatim>\<open>isNaN\<close> on a number.\<close>

definition isNaN :: "jsnum \<Rightarrow> bool" where
  "isNaN n = (n = NaN)"

text \<open>\<^verbatim>\<open>n >= c\<close> and \<^verbatim>\<open>n <= c\<close> for a number and a finite constant.\<close>

fun ge_num :: "jsnum \<Rightarrow> rat \<Rightarrow> bool" where
  "ge_num NaN c = False"
| "ge_num (Fin q) c = (q \<ge> c)"
| "ge_num PInf c = True"
| "ge_num NInf c = False"

fun le_num :: "jsnum \<Rightarrow> rat \<Rightarrow> bool" where
  "le_num NaN c = False"
| "le_num (Fin q) c = (q \<le> c)"
| "le_num PInf c = False"
| "le_num NInf c = True"

section \<open>Severity of an OSV record: \<^verbatim>\<open>getSeverityLabel\<close>\<close>

text \<open>Lines 17 to 20: the substring tests on the trimmed, lower-cased label.\<close>

definition classify_label :: "string \<Rightarrow> string option" where
  "classify_label label =
     (if includes_js label ''crit'' then Some ''Critical''
      else if includes_js label ''high'' then Some ''High''
      else if includes_js label ''med'' then Some ''Medium''
      else if includes_js label ''low'' then Some ''Low''
      else None)"

text \<open>Lines 15 to 21: the label step returns only for a truthy string with a known word.\<close>

definition label_of_priority :: "jsval \<Rightarrow> string option" where
  "label_of_priority priority =
     (case priority of
        Str p \<Rightarrow> if truthy priority then classify_label (toLowerCase (trim p)) else None
      | _ \<Rightarrow> None)"

text \<open>The four score tiers, shared by lines 25 to 28 and 47 to 50.\<close>

definition tier :: "jsnum \<Rightarrow> string" where
  "tier score =
     (if ge_num score 9 then ''Critical''
      else if ge_num score 7 then ''High''
      else if ge_num score 4 then ''Medium''
      else ''Low'')"

text \<open>The callback of line 22.\<close>

definition is_cvss :: "jsval \<Rightarrow> error + bool" where
  "is_cvss s = bindE (get s ''type'') (\<lambda>t. Inr (t = Str ''CVSS_V3'' \<or> t = Str ''CVSS_V2''))"

text \<open>
  Lines 13 and 14. \<open>dbSpec\<close> is truthy, so reading a field from it cannot raise;
  \<open>priority\<close> is the first truthy one of the four fields, or the last field when
  none is truthy.
\<close>

definition dbSpec_of :: "jsval \<Rightarrow> jsval" where
  "dbSpec_of ds = or_js ds (Obj [])"

definition priority_of :: "jsval \<Rightarrow> jsval" where
  "priority_of dbSpec =
     or_js (opt_get dbSpec ''ubuntu_priority'')
       (or_js (opt_get dbSpec ''priority'')
         (or_js (opt_get dbSpec ''severity'') (opt_get dbSpec ''level'')))"

text \<open>
  Lines 22 and 23: the score comes from the first entry of the severity list whose type
  is \<^verbatim>\<open>CVSS_V3\<close> or \<^verbatim>\<open>CVSS_V2\<close>, and from \<^verbatim>\<open>dbSpec.cvss_score\<close> when
  \<^verbatim>\<open>find\<close> returns nothing.
\<close>

definition score_of :: "jsval \<Rightarrow> jsval \<Rightarrow> error + jsnum" where
  "score_of vuln dbSpec =
     bindE (get vuln ''severity'') (\<lambda>sev.
     bindE (opt_find is_cvss sev) (\<lambda>cvssObj.
       let src = (if truthy cvssObj then opt_get cvssObj ''score''
                  else opt_get dbSpec ''cvss_score'')
       in if ToString_raises src then Inl TypeError else Inr (parseFloat src)))"

text \<open>Lines 24 to 30.\<close>

definition label_of_score :: "jsnum \<Rightarrow> string" where
  "label_of_score score = (if \<not> isNaN score then tier score else ''Unknown'')"

definition getSeverityLabel :: "jsval \<Rightarrow> error + string" where
  "getSeverityLabel vuln =
     bindE (get vuln ''database_specific'') (\<lambda>ds.
       let dbSpec = dbSpec_of ds;
           priority = priority_of dbSpec
       in case label_of_priority priority of
            Some l \<Rightarrow> Inr l
          | None \<Rightarrow>
              bindE (score_of vuln dbSpec) (\<lambda>score. Inr (label_of_score score)))"

section \<open>Severity of an NVD record: \<^verbatim>\<open>getNVDSeverity\<close>\<close>

text \<open>
  \<^verbatim>\<open>Number(s)\<close> for a string: white space is trimmed on both sides; the empty string
  is 0; a hexadecimal, octal or binary integer literal has no sign; otherwise the whole
  string must be a decimal literal.
\<close>

definition is_radix_digit :: "nat \<Rightarrow> char \<Rightarrow> bool" where
  "is_radix_digit base c =
     (if base = 16 then c \<in> set ''0123456789abcdefABCDEF''
      else if base = 8 then c \<in> set ''01234567''
      else c \<in> set ''01'')"

definition parse_radix :: "string \<Rightarrow> jsnum option" where
  "parse_radix t =
     (case t of
        z # x # ds \<Rightarrow>
          if z = CHR ''0'' \<and> x \<in> set ''xXoObB'' then
            (let base = (if x \<in> set ''xX'' then 16 else if x \<in> set ''oO'' then 8 else 2)
             in if ds \<noteq> [] \<and> list_all (is_radix_digit base) ds
                then Some (Fin (rat_of_nat (digits_val base ds)))
                else Some NaN)
          else None
      | _ \<Rightarrow> None)"

definition StringToNumber :: "string \<Rightarrow> jsnum" where
  "StringToNumber s =
     (let t = trim s
      in if t = [] then Fin 0
         else case parse_radix t of
                Some n \<Rightarrow> n
              | None \<Rightarrow> (let (n, r) = parse_decimal t in if r = [] then n else NaN))"

text \<open>
  ToNumber, as the comparison \<^verbatim>\<open>score >= 9.0\<close> applies it to a value that is not
  a number. An array is joined to a string first: the empty array gives the empty
  string, an array of one element gives that element's string (empty for
  \<^verbatim>\<open>null\<close> and \<^verbatim>\<open>undefined\<close>), and a longer array gives a string with a comma,
  which is no number. It raises exactly when \<open>ToString_raises\<close> holds.
\<close>

fun ToNumber :: "jsval \<Rightarrow> jsnum" where
  "ToNumber Undefined = NaN"
| "ToNumber Null = Fin 0"
| "ToNumber (Bool b) = Fin (if b then 1 else 0)"
| "ToNumber (Num n) = n"
| "ToNumber (Str s) = StringToNumber s"
| "ToNumber (Arr []) = Fin 0"
| "ToNumber (Arr [x]) =
     (case x of
        Undefined \<Rightarrow> Fin 0
      | Null \<Rightarrow> Fin 0
      | Bool b \<Rightarrow> NaN
      | Num n \<Rightarrow> n
      | Str s \<Rightarrow> StringToNumber s
      | Arr ys \<Rightarrow> ToNumber x
      | Obj kvs \<Rightarrow> NaN
      | Fun f \<Rightarrow> NaN)"
| "ToNumber (Arr (x # y # zs)) = NaN"
| "ToNumber (Obj kvs) = NaN"
| "ToNumber (Fun f) = NaN"

text \<open>Line 37: the first truthy one of the three schemes' first entries.\<close>

definition metrics_of :: "jsval \<Rightarrow> jsval" where
  "metrics_of m =
     or_js (opt_index0 (opt_get m ''cvssMetricV31''))
       (or_js (opt_index0 (opt_get m ''cvssMetricV30''))
              (opt_index0 (opt_get m ''cvssMetricV2'')))"

text \<open>Line 42, for the lower-cased label \<open>l\<close>.\<close>

definition capitalize :: "string \<Rightarrow> string" where
  "capitalize l = toUpperCase (take 1 l) @ drop 1 l"

text \<open>Lines 39 and 45.\<close>

definition nvd_label_of :: "jsval \<Rightarrow> jsval" where
  "nvd_label_of metrics =
     or_js (opt_get (opt_get metrics ''cvssData'') ''baseSeverity'')
           (opt_get metrics ''baseSeverity'')"

definition nvd_score_of :: "jsval \<Rightarrow> jsval" where
  "nvd_score_of metrics = opt_get (opt_get metrics ''cvssData'') ''baseScore''"

text \<open>
  Only a string has \<^verbatim>\<open>toLowerCase\<close>; on any other truthy label the call raises.
  The comparisons of lines 47 to 49 convert a score that is not a number.
\<close>

definition getNVDSeverity :: "jsval \<Rightarrow> error + string" where
  "getNVDSeverity cve =
     bindE (get cve ''metrics'') (\<lambda>m.
       let metrics = metrics_of m;
           label = nvd_label_of metrics
       in if truthy label then
            (case label of
               Str s \<Rightarrow> Inr (capitalize (toLowerCase s))
             | _ \<Rightarrow> Inl TypeError)
          else
            let score = nvd_score_of metrics
            in if score \<noteq> Undefined \<and> score \<noteq> Null then
                 (if ToString_raises score then Inl TypeError
                  else Inr (tier (ToNumber score)))
               else Inr ''Unknown'')"

section \<open>Fixed versions: \<^verbatim>\<open>getNVDFixedVersion\<close> and \<^verbatim>\<open>getFixedVersion\<close>\<close>

text \<open>
  A loop with a \<^verbatim>\<open>return\<close> inside is a recursion over the iterated elements that
  yields \<open>Some v\<close> when the body returned \<open>v\<close> and \<open>None\<close> when the loop ran to its end.
\<close>

text \<open>Lines 63 to 65.\<close>

fun scan_cpeMatch :: "jsval list \<Rightarrow> error + jsval option" where
  "scan_cpeMatch [] = Inr None"
| "scan_cpeMatch (match # rest) =
     bindE (get match ''versionEndExcluding'') (\<lambda>v.
       if truthy v then Inr (Some v) else scan_cpeMatch rest)"

text \<open>Lines 61 to 66.\<close>

fun scan_nodes :: "jsval list \<Rightarrow> error + jsval option" where
  "scan_nodes [] = Inr None"
| "scan_nodes (node # rest) =
     bindE (get node ''cpeMatch'') (\<lambda>cm.
       if \<not> truthy cm then scan_nodes rest
       else
         bindE (iter cm) (\<lambda>matches.
         bindE (scan_cpeMatch matches) (\<lambda>r.
           case r of Some v \<Rightarrow> Inr (Some v) | None \<Rightarrow> scan_nodes rest)))"

text \<open>Lines 60 to 67.\<close>

fun scan_configurations :: "jsval list \<Rightarrow> error + jsval option" where
  "scan_configurations [] = Inr None"
| "scan_configurations (config # rest) =
     bindE (get config ''nodes'') (\<lambda>nd.
     bindE (iter nd) (\<lambda>nodes.
     bindE (scan_nodes nodes) (\<lambda>r.
       case r of Some v \<Rightarrow> Inr (Some v) | None \<Rightarrow> scan_configurations rest)))"

definition getNVDFixedVersion :: "jsval \<Rightarrow> error + jsval" where
  "getNVDFixedVersion cve =
     bindE (get cve ''configurations'') (\<lambda>cfg.
       if \<not> truthy cfg then Inr (Str ''Not Fixed'')
       else
         bindE (iter cfg) (\<lambda>configs.
         bindE (scan_configurations configs) (\<lambda>r.
           case r of Some v \<Rightarrow> Inr v | None \<Rightarrow> Inr (Str ''Check NVD''))))"

text \<open>The callback of line 76.\<close>

definition has_fixed :: "jsval \<Rightarrow> error + bool" where
  "has_fixed e = bindE (get e ''fixed'') (\<lambda>f. Inr (truthy f))"

text \<open>Lines 75 to 78. A found event is one the callback accepted, so it is not
  \<^verbatim>\<open>null\<close> and reading \<^verbatim>\<open>fixed\<close> from it again cannot raise.\<close>

fun scan_ranges :: "jsval list \<Rightarrow> error + jsval option" where
  "scan_ranges [] = Inr None"
| "scan_ranges (rng # rest) =
     bindE (get rng ''events'') (\<lambda>evs.
     bindE (opt_find has_fixed evs) (\<lambda>fixedEvent.
       if truthy fixedEvent then bindE (get fixedEvent ''fixed'') (\<lambda>f. Inr (Some f))
       else scan_ranges rest))"

text \<open>Lines 73 to 79.\<close>

fun scan_affected :: "jsval list \<Rightarrow> error + jsval option" where
  "scan_affected [] = Inr None"
| "scan_affected (affected # rest) =
     bindE (get affected ''ranges'') (\<lambda>rs.
       if \<not> truthy rs then scan_affected rest
       else
         bindE (iter rs) (\<lambda>ranges.
         bindE (scan_ranges ranges) (\<lambda>r.
           case r of Some v \<Rightarrow> Inr (Some v) | None \<Rightarrow> scan_affected rest)))"

definition getFixedVersion :: "jsval \<Rightarrow> error + jsval" where
  "getFixedVersion vuln =
     bindE (get vuln ''affected'') (\<lambda>aff.
       if \<not> truthy aff then Inr (Str ''None'')
       else
         bindE (iter aff) (\<lambda>affs.
         bindE (scan_affected affs) (\<lambda>r.
           case r of Some v \<Rightarrow> Inr v | None \<Rightarrow> Inr (Str ''Not Fixed''))))"

section \<open>Values as text\<close>

text \<open>
  What the program reads from its surroundings besides the network: the decimal text of
  a number that is not a plain integer (the shortest digits that identify the binary64
  value, which the exact value alone does not determine), and the time value, in
  milliseconds, that \<^verbatim>\<open>new Date(s)\<close> gives a string (\<open>None\<close> for an invalid
  date). Both are parameters of the model; the theorems hold for every choice of them.
\<close>

record builtins =
  number_text :: "rat \<Rightarrow> string"
  date_parse :: "string \<Rightarrow> int option"

definition digit_char :: "nat \<Rightarrow> char" where
  "digit_char d = ''0123456789'' ! d"

fun show_nat :: "nat \<Rightarrow> string" where
  "show_nat n = (if n < 10 then [digit_char n] else show_nat (n div 10) @ [digit_char (n mod 10)])"

declare show_nat.simps [simp del]

definition show_int :: "int \<Rightarrow> string" where
  "show_int i = (if i < 0 then CHR ''-'' # show_nat (nat (- i)) else show_nat (nat i))"

text \<open>\<^verbatim>\<open>Number.prototype.toString\<close>: an integer of absolute value below ten to the
  power 21 is written in plain decimal digits.\<close>

definition Number_toString :: "builtins \<Rightarrow> jsnum \<Rightarrow> string" where
  "Number_toString b n =
     (case n of
        NaN \<Rightarrow> ''NaN''
      | PInf \<Rightarrow> ''Infinity''
      | NInf \<Rightarrow> ''-Infinity''
      | Fin q \<Rightarrow>
          if q = of_int \<lfloor>q\<rfloor> \<and> \<bar>q\<bar> < 10 ^ 21 then show_int \<lfloor>q\<rfloor> else number_text b q)"

fun join_comma :: "string list \<Rightarrow> string" where
  "join_comma [] = []"
| "join_comma [s] = s"
| "join_comma (s # t # ss) = s @ '','' @ join_comma (t # ss)"

text \<open>
  ToString where it does not raise (see \<open>ToString_raises\<close>). An array is its elements
  joined by commas, \<^verbatim>\<open>null\<close> and \<^verbatim>\<open>undefined\<close> elements being empty.
\<close>

fun ToString :: "builtins \<Rightarrow> jsval \<Rightarrow> string" where
  "ToString b Undefined = ''undefined''"
| "ToString b Null = ''null''"
| "ToString b (Bool c) = (if c then ''true'' else ''false'')"
| "ToString b (Num n) = Number_toString b n"
| "ToString b (Str s) = s"
| "ToString b (Arr xs) =
     join_comma (map (\<lambda>x. if x = Undefined \<or> x = Null then [] else ToString b x) xs)"
| "ToString b (Obj kvs) = ''[object Object]''"
| "ToString b (Fun f) = ''function '' @ f @ ''() { [native code] }''"

text \<open>A value in a template literal, \<^verbatim>\<open>`${v}`\<close>.\<close>

definition tmpl :: "builtins \<Rightarrow> jsval \<Rightarrow> error + string" where
  "tmpl b v = (if ToString_raises v then Inl TypeError else Inr (ToString b v))"

text \<open>The method call \<^verbatim>\<open>v.toString()\<close>.\<close>

definition call_toString :: "builtins \<Rightarrow> jsval \<Rightarrow> error + string" where
  "call_toString b v = (if v = Undefined \<or> v = Null then Inl TypeError else tmpl b v)"

text \<open>\<^verbatim>\<open>v.substring(0, 100) + '...'\<close>: only a string has \<^verbatim>\<open>substring\<close>.\<close>

definition substring100 :: "jsval \<Rightarrow> error + string" where
  "substring100 v = (case v of Str s \<Rightarrow> Inr (take 100 s @ ''...'') | _ \<Rightarrow> Inl TypeError)"

fun mapE :: "('a \<Rightarrow> error + 'b) \<Rightarrow> 'a list \<Rightarrow> error + 'b list" where
  "mapE f [] = Inr []"
| "mapE f (x # xs) = bindE (f x) (\<lambda>y. bindE (mapE f xs) (\<lambda>ys. Inr (y # ys)))"

section \<open>Days until end of life: \<^verbatim>\<open>calculateDaysRemaining\<close>\<close>

text \<open>TimeClip: a time value is an integer number of milliseconds within the range of
  dates.\<close>

definition TimeClip :: "jsnum \<Rightarrow> jsnum" where
  "TimeClip n =
     (case n of
        Fin q \<Rightarrow>
          if \<bar>q\<bar> \<le> 8640000000000000
          then Fin (of_int (if 0 \<le> q then \<lfloor>q\<rfloor> else \<lceil>q\<rceil>))
          else NaN
      | _ \<Rightarrow> NaN)"

text \<open>
  The time value of \<^verbatim>\<open>new Date(v)\<close>: a string is parsed; an array or object is
  converted to a string first, which may raise, and then parsed; anything else is
  converted to a number.
\<close>

definition parse_time :: "builtins \<Rightarrow> string \<Rightarrow> jsnum" where
  "parse_time b s = (case date_parse b s of None \<Rightarrow> NaN | Some t \<Rightarrow> Fin (of_int t))"

definition Date_value :: "builtins \<Rightarrow> jsval \<Rightarrow> error + jsnum" where
  "Date_value b v =
     (case v of
        Str s \<Rightarrow> Inr (parse_time b s)
      | Num n \<Rightarrow> Inr (TimeClip n)
      | Bool c \<Rightarrow> Inr (Fin (if c then 1 else 0))
      | Undefined \<Rightarrow> Inr NaN
      | Null \<Rightarrow> Inr (Fin 0)
      | _ \<Rightarrow> bindE (tmpl b v) (\<lambda>s. Inr (parse_time b s)))"

text \<open>Line 110 for the time value \<open>t\<close> of the date and the current time \<open>now\<close>, in
  milliseconds: \<^verbatim>\<open>Math.ceil((t - now) / (1000 * 60 * 60 * 24))\<close>.\<close>

definition days_from :: "int \<Rightarrow> jsnum \<Rightarrow> jsnum" where
  "days_from now t =
     (case t of
        Fin q \<Rightarrow> Fin (of_int \<lceil>(q - of_int now) / 86400000\<rceil>)
      | _ \<Rightarrow> t)"

text \<open>The result is \<^verbatim>\<open>null\<close> (\<open>None\<close>) or a number.\<close>

definition calculateDaysRemaining :: "builtins \<Rightarrow> int \<Rightarrow> jsval \<Rightarrow> error + jsnum option" where
  "calculateDaysRemaining b now dateStr =
     (if \<not> truthy dateStr then Inr None
      else bindE (Date_value b dateStr) (\<lambda>t. Inr (Some (days_from now t))))"

section \<open>Lifecycle status: lines 212 to 225 of \<^verbatim>\<open>initDashboard\<close>\<close>

record resolved =
  currentCycle :: jsval
  daysUntilEol :: "jsnum option"
  isEol :: jsval
  statusText :: string
  statusClass :: string

text \<open>The callback of line 214. The current version is read and converted only when the
  callback runs, that is, for each release looked at.\<close>

definition is_current :: "builtins \<Rightarrow> jsval \<Rightarrow> jsval \<Rightarrow> error + bool" where
  "is_current b configItem r =
     bindE (get r ''name'') (\<lambda>nm.
     bindE (get configItem ''current'') (\<lambda>cur.
     bindE (call_toString b cur) (\<lambda>cs. Inr (nm = Str cs))))"

text \<open>\<^verbatim>\<open>daysUntilEol !== null && daysUntilEol <= 90\<close>.\<close>

definition within_90 :: "jsnum option \<Rightarrow> bool" where
  "within_90 d = (case d of None \<Rightarrow> False | Some n \<Rightarrow> le_num n 90)"

definition lifecycle_status :: "builtins \<Rightarrow> int \<Rightarrow> jsval \<Rightarrow> jsval \<Rightarrow> error + resolved" where
  "lifecycle_status b now releases configItem =
     bindE (call_find (is_current b configItem) releases) (\<lambda>cc.
     bindE (calculateDaysRemaining b now (opt_get cc ''eolFrom'')) (\<lambda>days.
       let eol = (if truthy cc then opt_get cc ''isEol'' else Null);
           text0 = (if truthy cc then (if truthy eol then ''End of Life'' else ''Maintained'')
                    else ''Version Unknown'');
           cls = (if truthy cc
                  then (if truthy eol then ''status-eol''
                        else if within_90 days then ''status-warning'' else ''status-active'')
                  else ''status-neutral'');
           text1 = (if truthy cc \<and> \<not> truthy eol \<and> within_90 days
                    then ''EOL in '' @ (case days of None \<Rightarrow> ''null'' | Some n \<Rightarrow> Number_toString b n)
                         @ '' Days''
                    else text0)
       in Inr \<lparr>currentCycle = cc, daysUntilEol = days, isEol = eol,
                statusText = text1, statusClass = cls\<rparr>))"

section \<open>Fetching: \<^verbatim>\<open>fetchOSVVulnerabilities\<close>, \<^verbatim>\<open>fetchNVDVulnerabilities\<close>, lines 200 to 205\<close>

text \<open>
  What a \<^verbatim>\<open>fetch\<close> comes to: the request is rejected (no response), or there is a
  response with its \<^verbatim>\<open>ok\<close> flag and a body that \<^verbatim>\<open>json()\<close> decodes to a value
  or fails to decode (\<open>None\<close>). The outcome of each request is given from outside.
\<close>

datatype fetch_result = Rejected | Response bool "jsval option"

text \<open>
  Lines 83 to 94. Everything after the first line is inside \<^verbatim>\<open>try\<close>, so every
  failure, also of \<^verbatim>\<open>version.toString()\<close> and of reading \<^verbatim>\<open>vulns\<close> from a
  \<^verbatim>\<open>null\<close> body, gives the string \<^verbatim>\<open>'Err'\<close>. The response status is not
  looked at.
\<close>

definition fetchOSVVulnerabilities :: "fetch_result \<Rightarrow> jsval \<Rightarrow> jsval \<Rightarrow> jsval" where
  "fetchOSVVulnerabilities resp packageName version =
     (if \<not> truthy version then Arr []
      else if ToString_raises version then Str ''Err''
      else
        case resp of
          Rejected \<Rightarrow> Str ''Err''
        | Response ok body \<Rightarrow>
            (case body of
               None \<Rightarrow> Str ''Err''
             | Some data \<Rightarrow>
                 (case get data ''vulns'' of
                    Inl e \<Rightarrow> Str ''Err''
                  | Inr v \<Rightarrow> or_js v (Arr []))))"

text \<open>Lines 96 to 105. The URL is a template over both arguments.\<close>

definition fetchNVDVulnerabilities :: "fetch_result \<Rightarrow> jsval \<Rightarrow> jsval \<Rightarrow> jsval" where
  "fetchNVDVulnerabilities resp productName version =
     (if \<not> truthy version then Arr []
      else if ToString_raises productName \<or> ToString_raises version then Str ''Err''
      else
        case resp of
          Rejected \<Rightarrow> Str ''Err''
        | Response ok body \<Rightarrow>
            if \<not> ok then Str ''Err''
            else
              (case body of
                 None \<Rightarrow> Str ''Err''
               | Some data \<Rightarrow>
                   (case get data ''vulnerabilities'' of
                      Inl e \<Rightarrow> Str ''Err''
                    | Inr v \<Rightarrow> or_js v (Arr []))))"

text \<open>Line 201: \<^verbatim>\<open>fetch(...).then(r => r.ok ? r.json() : { error: true })\<close>. Nothing
  catches a rejected request or a body that does not decode.\<close>

definition fetch_lifecycle :: "fetch_result \<Rightarrow> error + jsval" where
  "fetch_lifecycle resp =
     (case resp of
        Rejected \<Rightarrow> Inl NetworkError
      | Response ok body \<Rightarrow>
          if ok then (case body of None \<Rightarrow> Inl SyntaxError | Some j \<Rightarrow> Inr j)
          else Inr (Obj [(''error'', Bool True)]))"

record fetched =
  lifecycle :: jsval
  osvVulns :: jsval
  nvdVulns :: jsval
  configItem :: jsval

text \<open>The asynchronous callback of lines 200 to 205 for one configured tool, given the
  outcomes of its three requests. \<open>Inl\<close> is a rejected promise.\<close>

definition fetch_item ::
  "fetch_result \<Rightarrow> fetch_result \<Rightarrow> fetch_result \<Rightarrow> jsval \<Rightarrow> error + fetched" where
  "fetch_item lr osr nr item =
     bindE (get item ''name'') (\<lambda>name.
       if ToString_raises name then Inl TypeError
       else
         bindE (fetch_lifecycle lr) (\<lambda>lc.
           Inr \<lparr>lifecycle = lc,
                osvVulns = fetchOSVVulnerabilities osr name (opt_get item ''current''),
                nvdVulns = fetchNVDVulnerabilities nr name (opt_get item ''current''),
                configItem = item\<rparr>))"

section \<open>One table row: lines 207 to 293\<close>

text \<open>
  A row is the template of lines 231 to 292 with its holes filled. The model keeps the
  holes, each converted to text as the template literal does, and leaves the fixed HTML
  out. The two badges and the two summary counts show \<open>osv_count\<close> and \<open>nvd_count\<close>.
\<close>

record advisory =
  adv_id :: string
  adv_severity :: string
  adv_fixed :: string
  adv_description :: string

record header =
  data_eol :: string
  data_category :: string
  data_days :: string
  product_label :: string
  current_version :: string
  current_release_date :: string
  latest_version :: string
  latest_release_date :: string
  status_class :: string
  status_text :: string
  release_history :: "(string \<times> string \<times> string) list"

record row =
  row_index :: nat
  row_header :: header
  data_has_vulns :: bool
  osv_count :: nat
  osv_advisories :: "advisory list"
  nvd_count :: nat
  nvd_advisories :: "advisory list"

text \<open>\<^verbatim>\<open>Array.isArray(v) && v.length > 0\<close>, and the elements that \<^verbatim>\<open>v.map\<close> then
  visits.\<close>

definition is_found :: "jsval \<Rightarrow> bool" where
  "is_found v = (case v of Arr xs \<Rightarrow> xs \<noteq> [] | _ \<Rightarrow> False)"

definition elements :: "jsval \<Rightarrow> jsval list" where
  "elements v = (case v of Arr xs \<Rightarrow> xs | _ \<Rightarrow> [])"

text \<open>Line 269.\<close>

definition osv_description :: "builtins \<Rightarrow> jsval \<Rightarrow> error + string" where
  "osv_description b v =
     (let summary = opt_get v ''summary''
      in if truthy summary then tmpl b summary
         else
           let details = opt_get v ''details''
           in if truthy details then substring100 details else Inr ''N/A'')"

text \<open>Lines 265 to 270.\<close>

definition osv_advisory :: "builtins \<Rightarrow> jsval \<Rightarrow> error + advisory" where
  "osv_advisory b v =
     bindE (get v ''id'') (\<lambda>i.
     bindE (tmpl b i) (\<lambda>ids.
     bindE (getSeverityLabel v) (\<lambda>sev.
     bindE (getFixedVersion v) (\<lambda>fx.
     bindE (tmpl b fx) (\<lambda>fxs.
     bindE (osv_description b v) (\<lambda>d.
       Inr \<lparr>adv_id = ids, adv_severity = sev, adv_fixed = fxs, adv_description = d\<rparr>))))))"

definition osv_section :: "builtins \<Rightarrow> jsval \<Rightarrow> error + advisory list" where
  "osv_section b vulns =
     (if is_found vulns then mapE (osv_advisory b) (elements vulns) else Inr [])"

text \<open>Line 285.\<close>

definition nvd_description :: "jsval \<Rightarrow> error + string" where
  "nvd_description cve =
     (let dv = opt_get (opt_index0 (opt_get cve ''descriptions'')) ''value''
      in if truthy dv then substring100 dv else Inr ''N/A'')"

text \<open>Lines 281 to 286.\<close>

definition nvd_advisory :: "builtins \<Rightarrow> jsval \<Rightarrow> error + advisory" where
  "nvd_advisory b v =
     bindE (get v ''cve'') (\<lambda>cve.
     bindE (get cve ''id'') (\<lambda>i.
     bindE (tmpl b i) (\<lambda>ids.
     bindE (getNVDSeverity cve) (\<lambda>sev.
     bindE (getNVDFixedVersion cve) (\<lambda>fx.
     bindE (tmpl b fx) (\<lambda>fxs.
     bindE (nvd_description cve) (\<lambda>d.
       Inr \<lparr>adv_id = ids, adv_severity = sev, adv_fixed = fxs, adv_description = d\<rparr>)))))))"

definition nvd_section :: "builtins \<Rightarrow> jsval \<Rightarrow> error + advisory list" where
  "nvd_section b vulns =
     (if is_found vulns then mapE (nvd_advisory b) (elements vulns) else Inr [])"

text \<open>Line 254, for one release.\<close>

definition history_row :: "builtins \<Rightarrow> jsval \<Rightarrow> error + string \<times> string \<times> string" where
  "history_row b r =
     bindE (get r ''name'') (\<lambda>n.
     bindE (tmpl b n) (\<lambda>ns.
     bindE (tmpl b (opt_get r ''releaseDate'')) (\<lambda>ds.
     bindE (tmpl b (or_js (opt_get r ''eolFrom'') (Str ''Maintained''))) (\<lambda>es.
       Inr (ns, ds, es)))))"

text \<open>
  Lines 210 to 225 and the holes of lines 232 to 254 that the lifecycle record fills.
  \<open>None\<close> is the early return of line 210. The dash of line 239 is written as its
  three UTF-8 bytes.
\<close>

definition render_header :: "builtins \<Rightarrow> int \<Rightarrow> jsval \<Rightarrow> jsval \<Rightarrow> error + header option" where
  "render_header b now lc item =
     bindE (get lc ''error'') (\<lambda>err.
       if truthy err then Inr None
       else
         bindE (get lc ''result'') (\<lambda>product.
         bindE (get product ''releases'') (\<lambda>releases.
         bindE (lifecycle_status b now releases item) (\<lambda>st.
         bindE (tmpl b (isEol st)) (\<lambda>eol_s.
         bindE (tmpl b (opt_get product ''category'')) (\<lambda>cat_s.
         bindE (tmpl b (opt_get product ''label'')) (\<lambda>label_s.
         bindE (get item ''current'') (\<lambda>cur.
         bindE (tmpl b cur) (\<lambda>cur_s.
         bindE (tmpl b (or_js (opt_get (currentCycle st) ''releaseDate'')
                              (Str [CHR 0xE2, CHR 0x80, CHR 0x94]))) (\<lambda>crd_s.
         bindE (get (opt_index0 releases) ''name'') (\<lambda>ln.
         bindE (tmpl b ln) (\<lambda>ln_s.
         bindE (tmpl b (opt_get (opt_index0 releases) ''releaseDate'')) (\<lambda>lrd_s.
         bindE (mapE (history_row b) (take 10 (elements releases))) (\<lambda>hist.
           Inr (Some \<lparr>data_eol = eol_s, data_category = cat_s,
                      data_days = (case daysUntilEol st of
                                     None \<Rightarrow> ''9999''
                                   | Some n \<Rightarrow> Number_toString b n),
                      product_label = label_s, current_version = cur_s,
                      current_release_date = crd_s,
                      latest_version = ln_s, latest_release_date = lrd_s,
                      status_class = statusClass st, status_text = statusText st,
                      release_history = hist\<rparr>)))))))))))))))"

text \<open>The callback of line 207 for one result; \<open>now\<close> is the time at which it runs.\<close>

definition render_row :: "builtins \<Rightarrow> int \<Rightarrow> nat \<Rightarrow> fetched \<Rightarrow> error + row option" where
  "render_row b now globalIndex res =
     bindE (render_header b now (lifecycle res) (configItem res)) (\<lambda>h.
       case h of
         None \<Rightarrow> Inr None
       | Some hdr \<Rightarrow>
           bindE (osv_section b (osvVulns res)) (\<lambda>osv.
           bindE (nvd_section b (nvdVulns res)) (\<lambda>nvd.
             Inr (Some \<lparr>row_index = globalIndex, row_header = hdr,
                        data_has_vulns = (is_found (osvVulns res) \<or> is_found (nvdVulns res)),
                        osv_count = (if is_found (osvVulns res)
                                     then length (elements (osvVulns res)) else 0),
                        osv_advisories = osv,
                        nvd_count = (if is_found (nvdVulns res)
                                     then length (elements (nvdVulns res)) else 0),
                        nvd_advisories = nvd\<rparr>))))"

section \<open>The batches: lines 198 to 298 of \<^verbatim>\<open>initDashboard\<close>\<close>

text \<open>
  The model starts where the loop of line 198 starts, with the configured tools loaded.
  (Lines 186 to 196 load the category list and the configuration inside the same
  \<^verbatim>\<open>try\<close>; they touch neither the table nor the item count.)

  The surroundings of a run: the built-ins, the time at which the row of the tool with a
  given index is built, and the outcomes of the three requests made for that tool.
\<close>

record world =
  lang :: builtins
  clock :: "nat \<Rightarrow> int"
  lifecycle_resp :: "nat \<Rightarrow> fetch_result"
  osv_resp :: "nat \<Rightarrow> fetch_result"
  nvd_resp :: "nat \<Rightarrow> fetch_result"

definition BATCH_SIZE :: nat where
  "BATCH_SIZE = 5"

definition run_task :: "world \<Rightarrow> nat \<Rightarrow> jsval \<Rightarrow> error + fetched" where
  "run_task w k item = fetch_item (lifecycle_resp w k) (osv_resp w k) (nvd_resp w k) item"

text \<open>
  \<^verbatim>\<open>Promise.all\<close>. The tasks settle one after the other in some order. A task that is
  fulfilled stores its value in the slot of its own index; the first task that is
  rejected rejects the whole. \<open>order\<close> lists indices of tasks in the order in which they
  settle; a task it does not list settles after the listed ones, and a repeated or
  unknown index changes nothing. When all have settled every slot is filled, and the
  slots in index order are the result.
\<close>

fun settle :: "nat list \<Rightarrow> (error + 'a) list \<Rightarrow> 'a option list \<Rightarrow> error + 'a option list" where
  "settle [] outs slots = Inr slots"
| "settle (k # ks) outs slots =
     (if k < length outs then
        (case outs ! k of
           Inl e \<Rightarrow> Inl e
         | Inr v \<Rightarrow> settle ks outs (slots[k := Some v]))
      else settle ks outs slots)"

definition promise_all :: "nat list \<Rightarrow> (error + 'a) list \<Rightarrow> error + 'a list" where
  "promise_all order outs =
     bindE (settle (order @ [0..<length outs]) outs (replicate (length outs) None))
       (\<lambda>slots. Inr (List.map_filter (\<lambda>s. s) slots))"

text \<open>
  What the run leaves behind, in order: the start of the tasks of a batch (first index
  and size), a row appended to the table body, the text of the item count
  (\<^verbatim>\<open>"5 / 12 Tools Tracked"\<close> is \<open>Count 5 12\<close>), and an exception logged by the
  \<^verbatim>\<open>catch\<close> of line 298. The width of the progress bar (line 295) shows the same
  two numbers and is left out.
\<close>

datatype event = Batch nat nat | Row row | Count nat nat | Logged error

text \<open>\<^verbatim>\<open>results.forEach\<close>, lines 207 to 294: rows are appended in the order of the
  results; an exception ends the loop and leaves the rows appended so far.\<close>

fun forEach_rows :: "world \<Rightarrow> nat \<Rightarrow> fetched list \<Rightarrow> event list \<Rightarrow> error option \<times> event list" where
  "forEach_rows w k [] tr = (None, tr)"
| "forEach_rows w k (res # rest) tr =
     (case render_row (lang w) (clock w k) k res of
        Inl e \<Rightarrow> (Some e, tr)
      | Inr None \<Rightarrow> forEach_rows w (Suc k) rest tr
      | Inr (Some r) \<Rightarrow> forEach_rows w (Suc k) rest (tr @ [Row r]))"

text \<open>
  The loop of line 198 from index \<open>i\<close> on, for the configured tools \<open>cfg\<close>;
  \<open>order i\<close> is the order in which the tasks of the batch that starts at \<open>i\<close> settle.
  An exception, from \<^verbatim>\<open>Promise.all\<close> or from building a row, is logged and ends the
  run.
\<close>

function initDashboard_loop ::
  "world \<Rightarrow> (nat \<Rightarrow> nat list) \<Rightarrow> jsval list \<Rightarrow> nat \<Rightarrow> event list \<Rightarrow> event list" where
  "initDashboard_loop w order cfg i tr =
     (if i < length cfg then
        (let batch = take BATCH_SIZE (drop i cfg);
             tr1 = tr @ [Batch i (length batch)]
         in case promise_all (order i)
                   (map (\<lambda>j. run_task w (i + j) (batch ! j)) [0..<length batch]) of
              Inl e \<Rightarrow> tr1 @ [Logged e]
            | Inr results \<Rightarrow>
                (case forEach_rows w i results tr1 of
                   (Some e, tr2) \<Rightarrow> tr2 @ [Logged e]
                 | (None, tr2) \<Rightarrow>
                     initDashboard_loop w order cfg (i + BATCH_SIZE)
                       (tr2 @ [Count (min (i + length batch) (length cfg)) (length cfg)])))
      else tr)"
  by pat_completeness auto
termination
  by (relation "measure (\<lambda>(w, order, cfg, i, tr). length cfg - i)")
     (auto simp: BATCH_SIZE_def)

declare initDashboard_loop.simps [simp del]

definition initDashboard :: "world \<Rightarrow> (nat \<Rightarrow> nat list) \<Rightarrow> jsval list \<Rightarrow> event list" where
  "initDashboard w order cfg = initDashboard_loop w order cfg 0 []"

text \<open>One tool from its configuration entry to its row.\<close>

definition row_of :: "world \<Rightarrow> nat \<Rightarrow> jsval \<Rightarrow> error + row option" where
  "row_of w k item = bindE (run_task w k item) (render_row (lang w) (clock w k) k)"

section \<open>The specification's reading of the label step\<close>

text \<open>
  Following the specification's words, "take the first present string field" of the four
  vendor fields in their declared order: the first field whose value is a string.
\<close>

definition spec_first_string_field :: "jsval \<Rightarrow> jsval" where
  "spec_first_string_field dbSpec =
     (case List.find (\<lambda>v. case v of Str p \<Rightarrow> True | _ \<Rightarrow> False)
             (map (opt_get dbSpec) [''ubuntu_priority'', ''priority'', ''severity'', ''level'']) of
        Some v \<Rightarrow> v | None \<Rightarrow> Undefined)"

definition spec_label :: "jsval \<Rightarrow> string option" where
  "spec_label dbSpec =
     (case spec_first_string_field dbSpec of
        Str p \<Rightarrow> classify_label (toLowerCase (trim p))
      | _ \<Rightarrow> None)"

section \<open>The specification's reading of the score tiers and of the CVSS entry\<close>

text \<open>
  Following the specification's words: Critical when \<open>s \<ge> 9.0\<close>, High when
  \<open>9.0 > s \<ge> 7.0\<close>, Medium when \<open>7.0 > s \<ge> 4.0\<close>, Low when \<open>s < 4.0\<close>.
\<close>

definition spec_tier :: "rat \<Rightarrow> string" where
  "spec_tier s =
     (if s \<ge> 9 then ''Critical''
      else if 9 > s \<and> s \<ge> 7 then ''High''
      else if 7 > s \<and> s \<ge> 4 then ''Medium''
      else ''Low'')"

text \<open>
  Following the specification's words, "prefer a CVSS v3 entry over CVSS v2 if both exist
  in a severity list": the first v3 entry if there is one, else the first v2 entry.
\<close>

definition spec_cvss_entry :: "jsval list \<Rightarrow> jsval" where
  "spec_cvss_entry sev =
     (case filter (\<lambda>s. opt_get s ''type'' = Str ''CVSS_V3'') sev of
        e # _ \<Rightarrow> e
      | [] \<Rightarrow> (case filter (\<lambda>s. opt_get s ''type'' = Str ''CVSS_V2'') sev of
                 e # _ \<Rightarrow> e
               | [] \<Rightarrow> Undefined))"

section \<open>Records without a fix, in terms of the data\<close>

text \<open>
  An OSV range none of whose events carries a truthy \<^verbatim>\<open>fixed\<close>; an OSV
  \<^verbatim>\<open>affected\<close> entry whose ranges are missing or all without a fix.
\<close>

definition range_without_fix :: "jsval \<Rightarrow> bool" where
  "range_without_fix r =
     (case get r ''events'' of
        Inl _ \<Rightarrow> False
      | Inr evs \<Rightarrow>
          (case evs of
             Undefined \<Rightarrow> True
           | Null \<Rightarrow> True
           | Arr es \<Rightarrow> list_all (\<lambda>e. has_fixed e = Inr False) es
           | _ \<Rightarrow> False))"

definition affected_without_fix :: "jsval \<Rightarrow> bool" where
  "affected_without_fix a =
     (case get a ''ranges'' of
        Inl _ \<Rightarrow> False
      | Inr rv \<Rightarrow>
          \<not> truthy rv \<or> (case rv of Arr rs \<Rightarrow> list_all range_without_fix rs | _ \<Rightarrow> False))"

text \<open>
  An NVD match entry without a truthy \<^verbatim>\<open>versionEndExcluding\<close>; a node whose
  \<^verbatim>\<open>cpeMatch\<close> is missing or has only such entries; a configuration whose
  \<^verbatim>\<open>nodes\<close> is an array of such nodes.
\<close>

definition match_without_bound :: "jsval \<Rightarrow> bool" where
  "match_without_bound mt =
     (case get mt ''versionEndExcluding'' of Inl _ \<Rightarrow> False | Inr v \<Rightarrow> \<not> truthy v)"

definition node_without_bound :: "jsval \<Rightarrow> bool" where
  "node_without_bound n =
     (case get n ''cpeMatch'' of
        Inl _ \<Rightarrow> False
      | Inr cm \<Rightarrow>
          \<not> truthy cm \<or> (case cm of Arr ms \<Rightarrow> list_all match_without_bound ms | _ \<Rightarrow> False))"

definition configuration_without_bound :: "jsval \<Rightarrow> bool" where
  "configuration_without_bound c =
     (case get c ''nodes'' of
        Inr (Arr ns) \<Rightarrow> list_all node_without_bound ns
      | _ \<Rightarrow> False)"

section \<open>What the run shows\<close>

text \<open>The rows of the table body, the item counts and the batches of a run, in order.\<close>

definition table_rows :: "event list \<Rightarrow> row list" where
  "table_rows tr = concat (map (\<lambda>e. case e of Row r \<Rightarrow> [r] | _ \<Rightarrow> []) tr)"

definition item_counts :: "event list \<Rightarrow> (nat \<times> nat) list" where
  "item_counts tr = concat (map (\<lambda>e. case e of Count a n \<Rightarrow> [(a, n)] | _ \<Rightarrow> []) tr)"

definition batch_sizes :: "event list \<Rightarrow> nat list" where
  "batch_sizes tr = concat (map (\<lambda>e. case e of Batch i n \<Rightarrow> [n] | _ \<Rightarrow> []) tr)"

section \<open>An example configuration\<close>

text \<open>
  Twelve tools at version 1 of a product whose lifecycle record has one maintained
  release. The lifecycle request of tool 7 gets a non-success response; source A has
  nothing on any tool and source B an empty list. The tasks of the second batch settle
  out of order.
\<close>

definition example_lang :: builtins where
  "example_lang = \<lparr>number_text = (\<lambda>q. []), date_parse = (\<lambda>s. None)\<rparr>"

definition example_lifecycle :: jsval where
  "example_lifecycle =
     Obj [(''result'', Obj [(''label'', Str ''Tool''), (''category'', Str ''db''),
        (''releases'', Arr [Obj [(''name'', Str ''1''), (''isEol'', Bool False),
                                 (''releaseDate'', Str ''2024-01-01'')]])])]"

definition example_tool :: jsval where
  "example_tool = Obj [(''name'', Str ''tool''), (''current'', Str ''1'')]"

definition example_world :: world where
  "example_world =
     \<lparr>lang = example_lang, clock = (\<lambda>k. 0),
      lifecycle_resp = (\<lambda>k. if k = 7 then Response False None
                              else Response True (Some example_lifecycle)),
      osv_resp = (\<lambda>k. Response True (Some (Obj []))),
      nvd_resp = (\<lambda>k. Response True (Some (Obj [(''vulnerabilities'', Arr [])])))\<rparr>"

definition example_order :: "nat \<Rightarrow> nat list" where
  "example_order i = (if i = 5 then [4, 2, 0, 3, 1] else [])"

definition example_header :: header where
  "example_header =
     \<lparr>data_eol = ''false'', data_category = ''db'', data_days = ''9999'',
      product_label = ''Tool'', current_version = ''1'',
      current_release_date = ''2024-01-01'',
      latest_version = ''1'', latest_release_date = ''2024-01-01'',
      status_class = ''status-active'', status_text = ''Maintained'',
      release_history = [(''1'', ''2024-01-01'', ''Maintained'')]\<rparr>"

definition example_row :: "nat \<Rightarrow> row" where
  "example_row k =
     \<lparr>row_index = k, row_header = example_header, data_has_vulns = False,
      osv_count = 0, osv_advisories = [], nvd_count = 0, nvd_advisories = []\<rparr>"

text \<open>The same surroundings, except that the lifecycle response of tool 1 is successful
  but its body does not decode.\<close>

definition undecodable_world :: world where
  "undecodable_world =
     example_world\<lparr>lifecycle_resp :=
       (\<lambda>k. if k = 1 then Response True None else Response True (Some example_lifecycle))\<rparr>"

text \<open>The same surroundings, except that every request to source A is rejected and
  source B has one record on every tool.\<close>

definition example_cve :: jsval where
  "example_cve =
     Obj [(''cve'', Obj [(''id'', Str ''CVE-1''),
        (''metrics'', Obj [(''cvssMetricV31'',
           Arr [Obj [(''cvssData'', Obj [(''baseSeverity'', Str ''HIGH''),
                                         (''baseScore'', Num (Fin (15 / 2)))])]])]),
        (''configurations'',
           Arr [Obj [(''nodes'', Arr [Obj [(''cpeMatch'',
              Arr [Obj [(''versionEndExcluding'', Str ''3.1'')]])]])]]),
        (''descriptions'', Arr [Obj [(''value'', Str ''Overflow'')]])])]"

definition source_A_down_world :: world where
  "source_A_down_world =
     example_world\<lparr>osv_resp := (\<lambda>k. Rejected),
       nvd_resp := (\<lambda>k. Response True (Some (Obj [(''vulnerabilities'', Arr [example_cve])])))\<rparr>"

definition source_A_down_row :: "nat \<Rightarrow> row" where
  "source_A_down_row k =
     \<lparr>row_index = k, row_header = example_header, data_has_vulns = True,
      osv_count = 0, osv_advisories = [], nvd_count = 1,
      nvd_advisories = [\<lparr>adv_id = ''CVE-1'', adv_severity = ''High'', adv_fixed = ''3.1'',
                         adv_description = ''Overflow...''\<rparr>]\<rparr>"

text \<open>The surroundings with source A down, except that the lifecycle response of tool 8,
  in the second batch, is successful but its body does not decode.\<close>

definition source_A_down_late_failure_world :: world where
  "source_A_down_late_failure_world =
     source_A_down_world\<lparr>lifecycle_resp :=
       (\<lambda>k. if k = 8 then Response True None else lifecycle_resp source_A_down_world k)\<rparr>"

section \<open>Basic facts\<close>

lemma bindE_simps [simp]:
  "bindE (Inl e) f = Inl e"
  "bindE (Inr x) f = f x"
  by (simp_all add: bindE_def)

lemma starts_with_iff: "starts_with s p \<longleftrightarrow> (\<exists>b. s = p @ b)"
  by (induction s p rule: starts_with.induct) auto

lemma includes_js_iff: "includes_js s p \<longleftrightarrow> (\<exists>a b. s = a @ p @ b)"
proof (induction s)
  case Nil
  then show ?case by auto
next
  case (Cons c cs)
  show ?case
  proof
    assume "includes_js (c # cs) p"
    then consider "starts_with (c # cs) p" | "includes_js cs p" by auto
    then show "\<exists>a b. c # cs = a @ p @ b"
    proof cases
      case 1
      then obtain b where "c # cs = p @ b" by (auto simp: starts_with_iff)
      then have "c # cs = [] @ p @ b" by simp
      then show ?thesis by blast
    next
      case 2
      then obtain a b where "cs = a @ p @ b" using Cons.IH by blast
      then have "c # cs = (c # a) @ p @ b" by simp
      then show ?thesis by blast
    qed
  next
    assume "\<exists>a b. c # cs = a @ p @ b"
    then obtain a b where ab: "c # cs = a @ p @ b" by blast
    show "includes_js (c # cs) p"
    proof (cases a)
      case Nil
      with ab have "starts_with (c # cs) p" by (auto simp: starts_with_iff)
      then show ?thesis by simp
    next
      case (Cons x a')
      with ab have "cs = a' @ p @ b" by simp
      then have "includes_js cs p" using Cons.IH by blast
      then show ?thesis by simp
    qed
  qed
qed

lemmas string_defs = trim_def toLowerCase_def lower_char_def is_ws_def

lemma priority_of_find:
  "List.find truthy (map (opt_get d) [''ubuntu_priority'', ''priority'', ''severity'', ''level'']) = Some v
   \<Longrightarrow> priority_of d = v"
  by (auto simp: priority_of_def or_js_def split: if_splits)

lemma find_truthy: "List.find truthy xs = Some v \<Longrightarrow> truthy v"
  by (induction xs) (auto split: if_splits)

section \<open>Severity labels of OSV records\<close>

text \<open>
  C1 (amended). For every OSV record from which \<^verbatim>\<open>database_specific\<close> can be read:
  the normalizer goes through \<^verbatim>\<open>ubuntu_priority\<close>, \<^verbatim>\<open>priority\<close>,
  \<^verbatim>\<open>severity\<close>, \<^verbatim>\<open>level\<close> in this order and takes the first truthy value
  (absent, \<^verbatim>\<open>null\<close>, empty-string, \<^verbatim>\<open>false\<close> and zero values are passed
  over). If that value is a string, it is trimmed and lower-cased, and the result is
  Critical, High, Medium or Low for the first of the substrings \<^verbatim>\<open>crit\<close>,
  \<^verbatim>\<open>high\<close>, \<^verbatim>\<open>med\<close>, \<^verbatim>\<open>low\<close> it contains, tested in this order at any
  position (\<open>includes_js_iff\<close>). Nothing is assumed about the severity list or the
  numeric score of the record: the label wins over any score, and is returned even where
  reading the score would raise.
\<close>

theorem getSeverityLabel_first_truthy_label:
  assumes "get vuln ''database_specific'' = Inr ds"
    and "List.find truthy (map (opt_get (dbSpec_of ds))
           [''ubuntu_priority'', ''priority'', ''severity'', ''level'']) = Some (Str p)"
    and "label = toLowerCase (trim p)"
  shows "(includes_js label ''crit'' \<longrightarrow> getSeverityLabel vuln = Inr ''Critical'') \<and>
         (\<not> includes_js label ''crit'' \<and> includes_js label ''high''
            \<longrightarrow> getSeverityLabel vuln = Inr ''High'') \<and>
         (\<not> includes_js label ''crit'' \<and> \<not> includes_js label ''high'' \<and> includes_js label ''med''
            \<longrightarrow> getSeverityLabel vuln = Inr ''Medium'') \<and>
         (\<not> includes_js label ''crit'' \<and> \<not> includes_js label ''high'' \<and> \<not> includes_js label ''med''
            \<and> includes_js label ''low'' \<longrightarrow> getSeverityLabel vuln = Inr ''Low'')"
proof -
  have pr: "priority_of (dbSpec_of ds) = Str p"
    using assms(2) by (rule priority_of_find)
  have "truthy (Str p)"
    using assms(2) by (rule find_truthy)
  then have lab: "label_of_priority (Str p) = classify_label label"
    using assms(3) by (simp add: label_of_priority_def)
  show ?thesis
    using assms(1) pr lab
    by (simp add: getSeverityLabel_def classify_label_def)
qed


text \<open>
  C1, witness: the four labels, each from a different field; the first record also has a
  CVSS score of 1.0, the second an empty first field and a vendor score of 2, the fourth
  a severity list on which \<^verbatim>\<open>find\<close> would raise.
\<close>

theorem getSeverityLabel_first_truthy_label_witness:
  "getSeverityLabel (Obj [(''database_specific'',
       Obj [(''ubuntu_priority'', Str '' CRITICAL ''), (''priority'', Str ''low'')]),
     (''severity'', Arr [Obj [(''type'', Str ''CVSS_V3''), (''score'', Str ''1.0'')]])])
     = Inr ''Critical'' \<and>
   getSeverityLabel (Obj [(''database_specific'',
       Obj [(''ubuntu_priority'', Str []), (''priority'', Str ''High''), (''cvss_score'', Num (Fin 2))])])
     = Inr ''High'' \<and>
   getSeverityLabel (Obj [(''database_specific'', Obj [(''severity'', Str ''MEDIUM'')])])
     = Inr ''Medium'' \<and>
   getSeverityLabel (Obj [(''database_specific'', Obj [(''level'', Str ''very low'')]),
     (''severity'', Num (Fin 5))])
     = Inr ''Low''"
proof -
  let ?d1 = "Obj [(''ubuntu_priority'', Str '' CRITICAL ''), (''priority'', Str ''low'')]"
  let ?d2 = "Obj [(''ubuntu_priority'', Str []), (''priority'', Str ''High''), (''cvss_score'', Num (Fin 2))]"
  let ?d3 = "Obj [(''severity'', Str ''MEDIUM'')]"
  let ?d4 = "Obj [(''level'', Str ''very low'')]"
  let ?v1 = "Obj [(''database_specific'', ?d1),
     (''severity'', Arr [Obj [(''type'', Str ''CVSS_V3''), (''score'', Str ''1.0'')]])]"
  let ?v2 = "Obj [(''database_specific'', ?d2)]"
  let ?v3 = "Obj [(''database_specific'', ?d3)]"
  let ?v4 = "Obj [(''database_specific'', ?d4), (''severity'', Num (Fin 5))]"
  have 1: "getSeverityLabel ?v1 = Inr ''Critical''"
    using getSeverityLabel_first_truthy_label [of ?v1 ?d1 "'' CRITICAL ''" "''critical''"]
    by (simp add: dbSpec_of_def or_js_def string_defs)
  have 2: "getSeverityLabel ?v2 = Inr ''High''"
    using getSeverityLabel_first_truthy_label [of ?v2 ?d2 "''High''" "''high''"]
    by (simp add: dbSpec_of_def or_js_def string_defs)
  have 3: "getSeverityLabel ?v3 = Inr ''Medium''"
    using getSeverityLabel_first_truthy_label [of ?v3 ?d3 "''MEDIUM''" "''medium''"]
    by (simp add: dbSpec_of_def or_js_def string_defs)
  have 4: "getSeverityLabel ?v4 = Inr ''Low''"
    using getSeverityLabel_first_truthy_label [of ?v4 ?d4 "''very low''" "''very low''"]
    by (simp add: dbSpec_of_def or_js_def string_defs)
  from 1 2 3 4 show ?thesis by blast
qed

text \<open>
  C1, counterexample to the claim as stated ("takes the first present string field"): in
  \<^verbatim>\<open>{database_specific: {ubuntu_priority: 3, priority: "high"}}\<close> the first field
  that is a string is \<^verbatim>\<open>priority\<close>, which reads High; the code stops at the truthy
  number 3, finds no string and no score, and returns Unknown.
\<close>

theorem getSeverityLabel_first_string_counterexample:
  "spec_label (dbSpec_of (Obj [(''ubuntu_priority'', Num (Fin 3)), (''priority'', Str ''high'')]))
     = Some ''High'' \<and>
   getSeverityLabel (Obj [(''database_specific'',
       Obj [(''ubuntu_priority'', Num (Fin 3)), (''priority'', Str ''high'')])])
     = Inr ''Unknown''"
  by (simp add: spec_label_def spec_first_string_field_def dbSpec_of_def or_js_def
      classify_label_def string_defs getSeverityLabel_def priority_of_def label_of_priority_def
      score_of_def label_of_score_def isNaN_def)

lemmas number_defs = parse_decimal_def parse_unsigned_def parse_exponent_def is_digit_def
  digits_val_def digit_val_def pow10_def

lemma tier_Fin: "tier (Fin s) = spec_tier s"
  by (simp add: tier_def spec_tier_def)

lemma find_js_first:
  "\<forall>x \<in> set pre. p x = Inr False \<Longrightarrow> p e = Inr True \<Longrightarrow> find_js p (pre @ e # post) = Inr e"
  by (induction pre) auto

lemma find_js_none: "\<forall>x \<in> set xs. p x = Inr False \<Longrightarrow> find_js p xs = Inr Undefined"
  by (induction xs) auto

lemma is_cvss_truthy: "is_cvss e = Inr True \<Longrightarrow> truthy e"
  by (cases e) (auto simp: is_cvss_def split: if_splits)

section \<open>Score tiers\<close>

text \<open>
  C4. For a record of either shape with no usable severity label and a finite numeric
  base score \<open>s\<close>, the result is Critical when \<open>s \<ge> 9.0\<close>, High when
  \<open>9.0 > s \<ge> 7.0\<close>, Medium when \<open>7.0 > s \<ge> 4.0\<close> and Low when \<open>s < 4.0\<close>. For an
  OSV record the score is the number that \<open>score_of\<close> parses; for an NVD record it is
  the \<^verbatim>\<open>baseScore\<close> of the selected metrics entry.
\<close>

theorem severity_score_tiers:
  "(get vuln ''database_specific'' = Inr ds \<and>
    label_of_priority (priority_of (dbSpec_of ds)) = None \<and>
    score_of vuln (dbSpec_of ds) = Inr (Fin s)
      \<longrightarrow> getSeverityLabel vuln = Inr (spec_tier s)) \<and>
   (get cve ''metrics'' = Inr m \<and>
    \<not> truthy (nvd_label_of (metrics_of m)) \<and>
    nvd_score_of (metrics_of m) = Num (Fin s)
      \<longrightarrow> getNVDSeverity cve = Inr (spec_tier s))"
  by (simp add: getSeverityLabel_def getNVDSeverity_def label_of_score_def isNaN_def tier_Fin)

text \<open>
  C4, witness: the scores 9.5, 7.0, 4.0 and 3.9 of the claim, for OSV records (as strings,
  in a CVSS entry or in \<^verbatim>\<open>cvss_score\<close>) and for NVD records (as numbers).
\<close>

theorem severity_score_tiers_witness:
  "getSeverityLabel (Obj [(''severity'',
       Arr [Obj [(''type'', Str ''CVSS_V3''), (''score'', Str ''9.5'')]])]) = Inr ''Critical'' \<and>
   getSeverityLabel (Obj [(''database_specific'', Obj [(''cvss_score'', Str ''7.0'')])])
     = Inr ''High'' \<and>
   getSeverityLabel (Obj [(''database_specific'', Obj [(''cvss_score'', Num (Fin 4))])])
     = Inr ''Medium'' \<and>
   getSeverityLabel (Obj [(''severity'',
       Arr [Obj [(''type'', Str ''CVSS_V2''), (''score'', Str ''3.9'')]])]) = Inr ''Low'' \<and>
   getNVDSeverity (Obj [(''metrics'', Obj [(''cvssMetricV31'',
       Arr [Obj [(''cvssData'', Obj [(''baseScore'', Num (Fin (19 / 2)))])]])])]) = Inr ''Critical'' \<and>
   getNVDSeverity (Obj [(''metrics'', Obj [(''cvssMetricV30'',
       Arr [Obj [(''cvssData'', Obj [(''baseScore'', Num (Fin 7))])]])])]) = Inr ''High'' \<and>
   getNVDSeverity (Obj [(''metrics'', Obj [(''cvssMetricV2'',
       Arr [Obj [(''cvssData'', Obj [(''baseScore'', Num (Fin 4))])]])])]) = Inr ''Medium'' \<and>
   getNVDSeverity (Obj [(''metrics'', Obj [(''cvssMetricV31'',
       Arr [Obj [(''cvssData'', Obj [(''baseScore'', Num (Fin (39 / 10)))])]])])]) = Inr ''Low''"
proof -
  let ?a1 = "Obj [(''severity'', Arr [Obj [(''type'', Str ''CVSS_V3''), (''score'', Str ''9.5'')]])]"
  let ?d2 = "Obj [(''cvss_score'', Str ''7.0'')]"
  let ?a2 = "Obj [(''database_specific'', ?d2)]"
  let ?d3 = "Obj [(''cvss_score'', Num (Fin 4))]"
  let ?a3 = "Obj [(''database_specific'', ?d3)]"
  let ?a4 = "Obj [(''severity'', Arr [Obj [(''type'', Str ''CVSS_V2''), (''score'', Str ''3.9'')]])]"
  let ?m1 = "Obj [(''cvssMetricV31'', Arr [Obj [(''cvssData'', Obj [(''baseScore'', Num (Fin (19 / 2)))])]])]"
  let ?m2 = "Obj [(''cvssMetricV30'', Arr [Obj [(''cvssData'', Obj [(''baseScore'', Num (Fin 7))])]])]"
  let ?m3 = "Obj [(''cvssMetricV2'', Arr [Obj [(''cvssData'', Obj [(''baseScore'', Num (Fin 4))])]])]"
  let ?m4 = "Obj [(''cvssMetricV31'', Arr [Obj [(''cvssData'', Obj [(''baseScore'', Num (Fin (39 / 10)))])]])]"
  note osv = dbSpec_of_def or_js_def priority_of_def label_of_priority_def score_of_def
    is_cvss_def number_defs is_ws_def spec_tier_def
  note nvd = metrics_of_def or_js_def nvd_label_of_def nvd_score_of_def spec_tier_def
  have 1: "getSeverityLabel ?a1 = Inr ''Critical''"
    using severity_score_tiers [of ?a1 Undefined "19 / 2", THEN conjunct1]
    by (simp add: osv)
  have 2: "getSeverityLabel ?a2 = Inr ''High''"
    using severity_score_tiers [of ?a2 ?d2 7, THEN conjunct1]
    by (simp add: osv)
  have 3: "getSeverityLabel ?a3 = Inr ''Medium''"
    using severity_score_tiers [of ?a3 ?d3 4, THEN conjunct1]
    by (simp add: osv)
  have 4: "getSeverityLabel ?a4 = Inr ''Low''"
    using severity_score_tiers [of ?a4 Undefined "39 / 10", THEN conjunct1]
    by (simp add: osv)
  have 5: "getNVDSeverity (Obj [(''metrics'', ?m1)]) = Inr ''Critical''"
    using severity_score_tiers [of _ _ "19 / 2" "Obj [(''metrics'', ?m1)]" ?m1, THEN conjunct2]
    by (simp add: nvd)
  have 6: "getNVDSeverity (Obj [(''metrics'', ?m2)]) = Inr ''High''"
    using severity_score_tiers [of _ _ 7 "Obj [(''metrics'', ?m2)]" ?m2, THEN conjunct2]
    by (simp add: nvd)
  have 7: "getNVDSeverity (Obj [(''metrics'', ?m3)]) = Inr ''Medium''"
    using severity_score_tiers [of _ _ 4 "Obj [(''metrics'', ?m3)]" ?m3, THEN conjunct2]
    by (simp add: nvd)
  have 8: "getNVDSeverity (Obj [(''metrics'', ?m4)]) = Inr ''Low''"
    using severity_score_tiers [of _ _ "39 / 10" "Obj [(''metrics'', ?m4)]" ?m4, THEN conjunct2]
    by (simp add: nvd)
  from 1 2 3 4 5 6 7 8 show ?thesis by blast
qed

section \<open>Which score an OSV record contributes\<close>

text \<open>
  C5 (amended). For every OSV record whose vendor label fields yield no classification:
  if the severity list has an entry of type \<^verbatim>\<open>CVSS_V3\<close> or \<^verbatim>\<open>CVSS_V2\<close>, the
  normalizer uses the score of the first such entry in list order (so the v3 entry's
  score when it comes before the v2 entry); it uses the vendor-specific
  \<^verbatim>\<open>cvss_score\<close> field only when the severity list is absent or has no such entry.
\<close>

theorem getSeverityLabel_first_cvss_entry:
  assumes "get vuln ''database_specific'' = Inr ds"
    and "label_of_priority (priority_of (dbSpec_of ds)) = None"
  shows "(get vuln ''severity'' = Inr (Arr (pre @ e # post)) \<and>
          (\<forall>x \<in> set pre. is_cvss x = Inr False) \<and> is_cvss e = Inr True
            \<longrightarrow> getSeverityLabel vuln =
                  (if ToString_raises (opt_get e ''score'') then Inl TypeError
                   else Inr (label_of_score (parseFloat (opt_get e ''score''))))) \<and>
         (get vuln ''severity'' = Inr sev \<and>
          (sev = Undefined \<or> sev = Null \<or>
           (\<exists>xs. sev = Arr xs \<and> (\<forall>x \<in> set xs. is_cvss x = Inr False)))
            \<longrightarrow> getSeverityLabel vuln =
                  (if ToString_raises (opt_get (dbSpec_of ds) ''cvss_score'') then Inl TypeError
                   else Inr (label_of_score (parseFloat (opt_get (dbSpec_of ds) ''cvss_score'')))))"
proof (intro conjI impI)
  assume a: "get vuln ''severity'' = Inr (Arr (pre @ e # post)) \<and>
    (\<forall>x \<in> set pre. is_cvss x = Inr False) \<and> is_cvss e = Inr True"
  then have f: "find_js is_cvss (pre @ e # post) = Inr e"
    by (simp add: find_js_first)
  have t: "truthy e"
    using a by (simp add: is_cvss_truthy)
  show "getSeverityLabel vuln =
      (if ToString_raises (opt_get e ''score'') then Inl TypeError
       else Inr (label_of_score (parseFloat (opt_get e ''score''))))"
    using assms a f t by (simp add: getSeverityLabel_def score_of_def)
next
  assume b: "get vuln ''severity'' = Inr sev \<and>
    (sev = Undefined \<or> sev = Null \<or>
     (\<exists>xs. sev = Arr xs \<and> (\<forall>x \<in> set xs. is_cvss x = Inr False)))"
  then have "opt_find is_cvss sev = Inr Undefined"
    by (auto simp: find_js_none)
  then show "getSeverityLabel vuln =
      (if ToString_raises (opt_get (dbSpec_of ds) ''cvss_score'') then Inl TypeError
       else Inr (label_of_score (parseFloat (opt_get (dbSpec_of ds) ''cvss_score''))))"
    using assms b by (simp add: getSeverityLabel_def score_of_def)
qed

text \<open>
  C5, witness: a list with another entry first, then v3 (score 9.5), then v2 (score 2.0)
  gives Critical from the v3 entry; a record whose list has no CVSS entry gives High
  from \<^verbatim>\<open>cvss_score\<close> 7.5.
\<close>

theorem getSeverityLabel_first_cvss_entry_witness:
  "getSeverityLabel (Obj [(''severity'',
       Arr [Obj [(''type'', Str ''OTHER''), (''score'', Str ''1.0'')],
            Obj [(''type'', Str ''CVSS_V3''), (''score'', Str ''9.5'')],
            Obj [(''type'', Str ''CVSS_V2''), (''score'', Str ''2.0'')]])]) = Inr ''Critical'' \<and>
   getSeverityLabel (Obj [(''database_specific'', Obj [(''cvss_score'', Str ''7.5'')]),
       (''severity'', Arr [Obj [(''type'', Str ''OTHER''), (''score'', Str ''1.0'')]])])
     = Inr ''High''"
proof -
  let ?o = "Obj [(''type'', Str ''OTHER''), (''score'', Str ''1.0'')]"
  let ?e3 = "Obj [(''type'', Str ''CVSS_V3''), (''score'', Str ''9.5'')]"
  let ?e2 = "Obj [(''type'', Str ''CVSS_V2''), (''score'', Str ''2.0'')]"
  let ?v1 = "Obj [(''severity'', Arr [?o, ?e3, ?e2])]"
  let ?d2 = "Obj [(''cvss_score'', Str ''7.5'')]"
  let ?v2 = "Obj [(''database_specific'', ?d2), (''severity'', Arr [?o])]"
  note defs = dbSpec_of_def or_js_def priority_of_def label_of_priority_def is_cvss_def
    number_defs is_ws_def label_of_score_def isNaN_def tier_def
  have 1: "getSeverityLabel ?v1 = Inr ''Critical''"
    using getSeverityLabel_first_cvss_entry
      [of ?v1 Undefined "[?o]" ?e3 "[?e2]", THEN conjunct1]
    by (simp add: defs)
  have 2: "getSeverityLabel ?v2 = Inr ''High''"
    using getSeverityLabel_first_cvss_entry
      [of ?v2 ?d2 _ _ _ "Arr [?o]", THEN conjunct2]
    by (simp add: defs)
  from 1 2 show ?thesis by blast
qed

text \<open>
  C5, counterexample to the claim as stated ("in either order ... uses the CVSS v3
  entry's score"): with the v2 entry (score 9.5) before the v3 entry (score 2.0), the
  entry the specification prefers is the v3 one, whose score reads Low; the code takes
  the v2 entry, which \<^verbatim>\<open>find\<close> meets first, and returns Critical.
\<close>

theorem getSeverityLabel_v2_before_v3_counterexample:
  "spec_cvss_entry [Obj [(''type'', Str ''CVSS_V2''), (''score'', Str ''9.5'')],
                    Obj [(''type'', Str ''CVSS_V3''), (''score'', Str ''2.0'')]]
     = Obj [(''type'', Str ''CVSS_V3''), (''score'', Str ''2.0'')] \<and>
   label_of_score (parseFloat (Str ''2.0'')) = ''Low'' \<and>
   getSeverityLabel (Obj [(''severity'',
       Arr [Obj [(''type'', Str ''CVSS_V2''), (''score'', Str ''9.5'')],
            Obj [(''type'', Str ''CVSS_V3''), (''score'', Str ''2.0'')]])]) = Inr ''Critical''"
  by (simp add: spec_cvss_entry_def getSeverityLabel_def dbSpec_of_def or_js_def priority_of_def
      label_of_priority_def score_of_def is_cvss_def number_defs is_ws_def label_of_score_def
      isNaN_def tier_def)

section \<open>Records without label and score\<close>





section \<open>Fixed versions\<close>

lemma scan_cpeMatch_skip:
  "list_all match_without_bound pre \<Longrightarrow> scan_cpeMatch (pre @ rest) = scan_cpeMatch rest"
  by (induction pre) (auto simp: match_without_bound_def split: sum.splits)

lemma scan_cpeMatch_none: "list_all match_without_bound ms \<Longrightarrow> scan_cpeMatch ms = Inr None"
  using scan_cpeMatch_skip [of ms "[]"] by simp

lemma scan_nodes_skip:
  "list_all node_without_bound pre \<Longrightarrow> scan_nodes (pre @ rest) = scan_nodes rest"
proof (induction pre)
  case Nil
  then show ?case by simp
next
  case (Cons n pre)
  then have n: "node_without_bound n" and pre: "list_all node_without_bound pre"
    by simp_all
  from n obtain cm where cm: "get n ''cpeMatch'' = Inr cm"
    and cases: "\<not> truthy cm \<or> (\<exists>ms. cm = Arr ms \<and> list_all match_without_bound ms)"
    by (auto simp: node_without_bound_def split: sum.splits jsval.splits)
  from cases show ?case
  proof
    assume "\<not> truthy cm"
    with cm Cons.IH [OF pre] show ?thesis by simp
  next
    assume "\<exists>ms. cm = Arr ms \<and> list_all match_without_bound ms"
    then obtain ms where "cm = Arr ms" and "list_all match_without_bound ms" by blast
    with cm Cons.IH [OF pre] show ?thesis by (simp add: scan_cpeMatch_none)
  qed
qed

lemma scan_nodes_none: "list_all node_without_bound ns \<Longrightarrow> scan_nodes ns = Inr None"
  using scan_nodes_skip [of ns "[]"] by simp

lemma scan_configurations_skip:
  "list_all configuration_without_bound pre
   \<Longrightarrow> scan_configurations (pre @ rest) = scan_configurations rest"
proof (induction pre)
  case Nil
  then show ?case by simp
next
  case (Cons c pre)
  then have c: "configuration_without_bound c"
    and pre: "list_all configuration_without_bound pre"
    by simp_all
  from c obtain ns where "get c ''nodes'' = Inr (Arr ns)" and "list_all node_without_bound ns"
    by (auto simp: configuration_without_bound_def split: sum.splits jsval.splits)
  with Cons.IH [OF pre] show ?case by (simp add: scan_nodes_none)
qed

lemma scan_configurations_none:
  "list_all configuration_without_bound cs \<Longrightarrow> scan_configurations cs = Inr None"
  using scan_configurations_skip [of cs "[]"] by simp

lemma find_js_has_fixed_none:
  "list_all (\<lambda>e. has_fixed e = Inr False) es \<Longrightarrow> find_js has_fixed es = Inr Undefined"
  by (induction es) auto

lemma find_js_has_fixed_first:
  "list_all (\<lambda>x. has_fixed x = Inr False) pre \<Longrightarrow> has_fixed e = Inr True
   \<Longrightarrow> find_js has_fixed (pre @ e # post) = Inr e"
  by (induction pre) auto

lemma scan_ranges_skip:
  "list_all range_without_fix pre \<Longrightarrow> scan_ranges (pre @ rest) = scan_ranges rest"
proof (induction pre)
  case Nil
  then show ?case by simp
next
  case (Cons r pre)
  then have r: "range_without_fix r" and pre: "list_all range_without_fix pre"
    by simp_all
  from r obtain evs where evs: "get r ''events'' = Inr evs"
    and cases: "evs = Undefined \<or> evs = Null \<or>
      (\<exists>es. evs = Arr es \<and> list_all (\<lambda>e. has_fixed e = Inr False) es)"
    by (auto simp: range_without_fix_def split: sum.splits jsval.splits)
  from cases have "opt_find has_fixed evs = Inr Undefined"
    by (auto simp: find_js_has_fixed_none)
  with evs Cons.IH [OF pre] show ?case by simp
qed

lemma scan_ranges_none: "list_all range_without_fix rs \<Longrightarrow> scan_ranges rs = Inr None"
  using scan_ranges_skip [of rs "[]"] by simp

lemma scan_affected_skip:
  "list_all affected_without_fix pre \<Longrightarrow> scan_affected (pre @ rest) = scan_affected rest"
proof (induction pre)
  case Nil
  then show ?case by simp
next
  case (Cons a pre)
  then have a: "affected_without_fix a" and pre: "list_all affected_without_fix pre"
    by simp_all
  from a obtain rv where rv: "get a ''ranges'' = Inr rv"
    and cases: "\<not> truthy rv \<or> (\<exists>rs. rv = Arr rs \<and> list_all range_without_fix rs)"
    by (auto simp: affected_without_fix_def split: sum.splits jsval.splits)
  from cases show ?case
  proof
    assume "\<not> truthy rv"
    with rv Cons.IH [OF pre] show ?thesis by simp
  next
    assume "\<exists>rs. rv = Arr rs \<and> list_all range_without_fix rs"
    then obtain rs where "rv = Arr rs" and "list_all range_without_fix rs" by blast
    with rv Cons.IH [OF pre] show ?thesis by (simp add: scan_ranges_none)
  qed
qed

lemma scan_affected_none: "list_all affected_without_fix affs \<Longrightarrow> scan_affected affs = Inr None"
  using scan_affected_skip [of affs "[]"] by simp

lemma getFixedVersion_first:
  assumes "get vuln ''affected'' = Inr (Arr (apre @ aff # apost))"
    and "list_all affected_without_fix apre"
    and "get aff ''ranges'' = Inr (Arr (rpre @ r # rpost))"
    and "list_all range_without_fix rpre"
    and "get r ''events'' = Inr (Arr (epre @ e # epost))"
    and "list_all (\<lambda>x. has_fixed x = Inr False) epre"
    and "truthy e" and "get e ''fixed'' = Inr v" and "truthy v"
  shows "getFixedVersion vuln = Inr v"
proof -
  have "has_fixed e = Inr True"
    using assms(8,9) by (simp add: has_fixed_def)
  then have "find_js has_fixed (epre @ e # epost) = Inr e"
    using assms(6) by (simp add: find_js_has_fixed_first)
  then have "scan_ranges (r # rpost) = Inr (Some v)"
    using assms(5,7,8) by simp
  then have "scan_ranges (rpre @ r # rpost) = Inr (Some v)"
    using assms(4) by (simp add: scan_ranges_skip)
  then have "scan_affected (aff # apost) = Inr (Some v)"
    using assms(3) by simp
  then have "scan_affected (apre @ aff # apost) = Inr (Some v)"
    using assms(2) by (simp add: scan_affected_skip)
  then show ?thesis
    using assms(1) by (simp add: getFixedVersion_def)
qed

lemma getNVDFixedVersion_first:
  assumes "get cve ''configurations'' = Inr (Arr (cpre @ c # cpost))"
    and "list_all configuration_without_bound cpre"
    and "get c ''nodes'' = Inr (Arr (npre @ n # npost))"
    and "list_all node_without_bound npre"
    and "get n ''cpeMatch'' = Inr (Arr (mpre @ mt # mpost))"
    and "list_all match_without_bound mpre"
    and "get mt ''versionEndExcluding'' = Inr w" and "truthy w"
  shows "getNVDFixedVersion cve = Inr w"
proof -
  have "scan_cpeMatch (mt # mpost) = Inr (Some w)"
    using assms(7,8) by simp
  then have "scan_cpeMatch (mpre @ mt # mpost) = Inr (Some w)"
    using assms(6) by (simp add: scan_cpeMatch_skip)
  then have "scan_nodes (n # npost) = Inr (Some w)"
    using assms(5) by simp
  then have "scan_nodes (npre @ n # npost) = Inr (Some w)"
    using assms(4) by (simp add: scan_nodes_skip)
  then have "scan_configurations (c # cpost) = Inr (Some w)"
    using assms(3) by simp
  then have "scan_configurations (cpre @ c # cpost) = Inr (Some w)"
    using assms(2) by (simp add: scan_configurations_skip)
  then show ?thesis
    using assms(1) by (simp add: getNVDFixedVersion_def)
qed

text \<open>
  C2 (amended). The extractor of OSV records returns \<^verbatim>\<open>"None"\<close> when
  \<^verbatim>\<open>affected\<close> is absent (or otherwise falsy), and the extractor of NVD records
  returns \<^verbatim>\<open>"Not Fixed"\<close> when \<^verbatim>\<open>configurations\<close> is absent (or otherwise
  falsy). When the data is present and no event carries a fix, respectively no match entry
  carries an upper bound, the results are \<^verbatim>\<open>"Not Fixed"\<close> and \<^verbatim>\<open>"Check NVD"\<close>.
  Otherwise the result is the literal first-found value in nested scan order: the
  entries, ranges and events (configurations, nodes and matches) before it carry none,
  and nothing after it is looked at. Both extractors are functions of the record alone
  (the source reads nothing else and writes nothing), so a repeated call on the same
  record gives the same result.
\<close>

theorem fixed_version_sentinels_and_first_match:
  "(get vuln ''affected'' = Inr a \<and> \<not> truthy a
      \<longrightarrow> getFixedVersion vuln = Inr (Str ''None'')) \<and>
   (get cve ''configurations'' = Inr cfg \<and> \<not> truthy cfg
      \<longrightarrow> getNVDFixedVersion cve = Inr (Str ''Not Fixed'')) \<and>
   (get vuln ''affected'' = Inr (Arr affs) \<and> list_all affected_without_fix affs
      \<longrightarrow> getFixedVersion vuln = Inr (Str ''Not Fixed'')) \<and>
   (get cve ''configurations'' = Inr (Arr cs) \<and> list_all configuration_without_bound cs
      \<longrightarrow> getNVDFixedVersion cve = Inr (Str ''Check NVD'')) \<and>
   (get vuln ''affected'' = Inr (Arr (apre @ aff # apost)) \<and>
    list_all affected_without_fix apre \<and>
    get aff ''ranges'' = Inr (Arr (rpre @ r # rpost)) \<and>
    list_all range_without_fix rpre \<and>
    get r ''events'' = Inr (Arr (epre @ e # epost)) \<and>
    list_all (\<lambda>x. has_fixed x = Inr False) epre \<and>
    truthy e \<and> get e ''fixed'' = Inr v \<and> truthy v
      \<longrightarrow> getFixedVersion vuln = Inr v) \<and>
   (get cve ''configurations'' = Inr (Arr (cpre @ c # cpost)) \<and>
    list_all configuration_without_bound cpre \<and>
    get c ''nodes'' = Inr (Arr (npre @ n # npost)) \<and>
    list_all node_without_bound npre \<and>
    get n ''cpeMatch'' = Inr (Arr (mpre @ mt # mpost)) \<and>
    list_all match_without_bound mpre \<and>
    get mt ''versionEndExcluding'' = Inr w \<and> truthy w
      \<longrightarrow> getNVDFixedVersion cve = Inr w)"
proof (intro conjI impI)
  assume "get vuln ''affected'' = Inr a \<and> \<not> truthy a"
  then show "getFixedVersion vuln = Inr (Str ''None'')"
    by (simp add: getFixedVersion_def)
next
  assume "get cve ''configurations'' = Inr cfg \<and> \<not> truthy cfg"
  then show "getNVDFixedVersion cve = Inr (Str ''Not Fixed'')"
    by (simp add: getNVDFixedVersion_def)
next
  assume "get vuln ''affected'' = Inr (Arr affs) \<and> list_all affected_without_fix affs"
  then show "getFixedVersion vuln = Inr (Str ''Not Fixed'')"
    by (simp add: getFixedVersion_def scan_affected_none)
next
  assume "get cve ''configurations'' = Inr (Arr cs) \<and> list_all configuration_without_bound cs"
  then show "getNVDFixedVersion cve = Inr (Str ''Check NVD'')"
    by (simp add: getNVDFixedVersion_def scan_configurations_none)
next
  assume "get vuln ''affected'' = Inr (Arr (apre @ aff # apost)) \<and>
    list_all affected_without_fix apre \<and>
    get aff ''ranges'' = Inr (Arr (rpre @ r # rpost)) \<and>
    list_all range_without_fix rpre \<and>
    get r ''events'' = Inr (Arr (epre @ e # epost)) \<and>
    list_all (\<lambda>x. has_fixed x = Inr False) epre \<and>
    truthy e \<and> get e ''fixed'' = Inr v \<and> truthy v"
  then show "getFixedVersion vuln = Inr v"
    using getFixedVersion_first [of vuln apre aff apost rpre r rpost epre e epost v] by blast
next
  assume "get cve ''configurations'' = Inr (Arr (cpre @ c # cpost)) \<and>
    list_all configuration_without_bound cpre \<and>
    get c ''nodes'' = Inr (Arr (npre @ n # npost)) \<and>
    list_all node_without_bound npre \<and>
    get n ''cpeMatch'' = Inr (Arr (mpre @ mt # mpost)) \<and>
    list_all match_without_bound mpre \<and>
    get mt ''versionEndExcluding'' = Inr w \<and> truthy w"
  then show "getNVDFixedVersion cve = Inr w"
    using getNVDFixedVersion_first [of cve cpre c cpost npre n npost mpre mt mpost w] by blast
qed

text \<open>
  C2, witness: records without the field; records with data but no fix; an OSV record
  whose first entry has no fix and whose second entry holds two fixed events and a
  further range (the first, 1.2.3, is returned); an NVD record with two upper bounds
  (the first, 3.1, is returned).
\<close>

theorem fixed_version_sentinels_and_first_match_witness:
  "getFixedVersion (Obj [(''id'', Str ''OSV-1'')]) = Inr (Str ''None'') \<and>
   getNVDFixedVersion (Obj [(''id'', Str ''CVE-1'')]) = Inr (Str ''Not Fixed'') \<and>
   getFixedVersion (Obj [(''affected'',
       Arr [Obj [(''ranges'', Arr [Obj [(''events'', Arr [Obj [(''introduced'', Str ''0'')]])]])]])])
     = Inr (Str ''Not Fixed'') \<and>
   getNVDFixedVersion (Obj [(''configurations'',
       Arr [Obj [(''nodes'', Arr [Obj [(''cpeMatch'', Arr [Obj [(''criteria'', Str ''x'')]])]])]])])
     = Inr (Str ''Check NVD'') \<and>
   getFixedVersion (Obj [(''affected'',
       Arr [Obj [(''ranges'', Arr [Obj [(''events'', Arr [Obj [(''introduced'', Str ''0'')]])]])],
            Obj [(''ranges'',
              Arr [Obj [(''events'', Arr [Obj [(''introduced'', Str ''1'')],
                                           Obj [(''fixed'', Str ''1.2.3'')],
                                           Obj [(''fixed'', Str ''9.9'')]])],
                   Obj [(''events'', Arr [Obj [(''fixed'', Str ''2.0'')]])]])]])])
     = Inr (Str ''1.2.3'') \<and>
   getNVDFixedVersion (Obj [(''configurations'',
       Arr [Obj [(''nodes'', Arr [Obj [(''cpeMatch'',
              Arr [Obj [(''criteria'', Str ''a'')],
                   Obj [(''versionEndExcluding'', Str ''3.1'')],
                   Obj [(''versionEndExcluding'', Str ''4.0'')]])]])]])])
     = Inr (Str ''3.1'')"
proof -
  let ?i0 = "Obj [(''introduced'', Str ''0'')]"
  let ?i1 = "Obj [(''introduced'', Str ''1'')]"
  let ?f1 = "Obj [(''fixed'', Str ''1.2.3'')]"
  let ?f2 = "Obj [(''fixed'', Str ''9.9'')]"
  let ?r0 = "Obj [(''events'', Arr [?i0])]"
  let ?r1 = "Obj [(''events'', Arr [?i1, ?f1, ?f2])]"
  let ?r2 = "Obj [(''events'', Arr [Obj [(''fixed'', Str ''2.0'')]])]"
  let ?a0 = "Obj [(''ranges'', Arr [?r0])]"
  let ?a1 = "Obj [(''ranges'', Arr [?r1, ?r2])]"
  let ?v1 = "Obj [(''id'', Str ''OSV-1'')]"
  let ?v3 = "Obj [(''affected'', Arr [?a0])]"
  let ?v5 = "Obj [(''affected'', Arr [?a0, ?a1])]"
  let ?mx = "Obj [(''criteria'', Str ''x'')]"
  let ?ma = "Obj [(''criteria'', Str ''a'')]"
  let ?mb = "Obj [(''versionEndExcluding'', Str ''3.1'')]"
  let ?mc = "Obj [(''versionEndExcluding'', Str ''4.0'')]"
  let ?n4 = "Obj [(''cpeMatch'', Arr [?mx])]"
  let ?n6 = "Obj [(''cpeMatch'', Arr [?ma, ?mb, ?mc])]"
  let ?c4 = "Obj [(''nodes'', Arr [?n4])]"
  let ?c6 = "Obj [(''nodes'', Arr [?n6])]"
  let ?w2 = "Obj [(''id'', Str ''CVE-1'')]"
  let ?w4 = "Obj [(''configurations'', Arr [?c4])]"
  let ?w6 = "Obj [(''configurations'', Arr [?c6])]"
  note defs = affected_without_fix_def range_without_fix_def has_fixed_def
    configuration_without_bound_def node_without_bound_def match_without_bound_def
  note main = fixed_version_sentinels_and_first_match
  have 1: "getFixedVersion ?v1 = Inr (Str ''None'')"
    using main [of ?v1 Undefined, THEN conjunct1] by simp
  have 2: "getNVDFixedVersion ?w2 = Inr (Str ''Not Fixed'')"
    using main [of _ _ ?w2 Undefined, THEN conjunct2, THEN conjunct1] by simp
  have 3: "getFixedVersion ?v3 = Inr (Str ''Not Fixed'')"
    using main [of ?v3 _ _ _ "[?a0]", THEN conjunct2, THEN conjunct2, THEN conjunct1]
    by (simp add: defs)
  have 4: "getNVDFixedVersion ?w4 = Inr (Str ''Check NVD'')"
    using main [of _ _ ?w4 _ _ "[?c4]",
        THEN conjunct2, THEN conjunct2, THEN conjunct2, THEN conjunct1]
    by (simp add: defs)
  have 5: "getFixedVersion ?v5 = Inr (Str ''1.2.3'')"
    using main [of ?v5 _ _ _ _ _ "[?a0]" ?a1 "[]" "[]" ?r1 "[?r2]" "[?i1]" ?f1 "[?f2]"
        "Str ''1.2.3''",
        THEN conjunct2, THEN conjunct2, THEN conjunct2, THEN conjunct2, THEN conjunct1]
    by (simp add: defs)
  have 6: "getNVDFixedVersion ?w6 = Inr (Str ''3.1'')"
    using main [of _ _ ?w6 _ _ _ _ _ _ _ _ _ _ _ _ _ "[]" ?c6 "[]" "[]" ?n6 "[]" "[?ma]" ?mb
        "[?mc]" "Str ''3.1''",
        THEN conjunct2, THEN conjunct2, THEN conjunct2, THEN conjunct2, THEN conjunct2]
    by (simp add: defs)
  from 1 2 3 4 5 6 show ?thesis by blast
qed

text \<open>
  C2, counterexample to the claim as stated ("None" when the configurations data is
  entirely absent): for an NVD record without \<^verbatim>\<open>configurations\<close> the result is
  \<^verbatim>\<open>"Not Fixed"\<close> (line 59), not \<^verbatim>\<open>"None"\<close>.
\<close>

theorem getNVDFixedVersion_absent_counterexample:
  "getNVDFixedVersion (Obj []) = Inr (Str ''Not Fixed'') \<and>
   getNVDFixedVersion (Obj []) \<noteq> Inr (Str ''None'')"
  by (simp add: getNVDFixedVersion_def)

section \<open>Records of unexpected shape\<close>

text \<open>
  C7. The claim is that the extractors never raise, also for a configuration entry that
  lacks \<^verbatim>\<open>nodes\<close>. On such a record \<^verbatim>\<open>getNVDFixedVersion\<close> raises: line 61
  iterates over \<^verbatim>\<open>config.nodes\<close> without the guard that line 62 has for
  \<^verbatim>\<open>cpeMatch\<close> and line 74 for \<^verbatim>\<open>ranges\<close>.
\<close>

theorem getNVDFixedVersion_without_nodes_raises:
  "getNVDFixedVersion (Obj [(''configurations'', Arr [Obj [(''operator'', Str ''OR'')]])])
     = Inl TypeError"
  by (simp add: getNVDFixedVersion_def)

section \<open>Lifecycle status\<close>

lemma ceiling_rat_numeral:
  "\<lceil>numeral a / numeral b :: rat\<rceil> = - (- numeral a div numeral b)"
  using ceiling_divide_eq_div [of "numeral a" "numeral b", where ?'a = rat] by simp

lemma ceiling_rat_minus_numeral:
  "\<lceil>- (numeral a / numeral b :: rat)\<rceil> = - (numeral a div numeral b)"
  using ceiling_divide_eq_div [of "- numeral a" "numeral b", where ?'a = rat] by simp

lemmas text_defs = Number_toString_def show_int_def show_nat.simps digit_char_def

lemma get_Str_truthy: "get r k = Inr (Str s) \<Longrightarrow> truthy r"
  by (cases r) (auto split: if_splits option.splits)

lemma is_current_other:
  assumes "get item ''current'' = Inr cur" and "call_toString b cur = Inr cs"
    and "\<exists>nm. get x ''name'' = Inr nm \<and> nm \<noteq> Str cs"
  shows "is_current b item x = Inr False"
  using assms by (auto simp: is_current_def)

lemma is_current_match:
  assumes "get item ''current'' = Inr cur" and "call_toString b cur = Inr cs"
    and "get r ''name'' = Inr (Str cs)"
  shows "is_current b item r = Inr True"
  using assms by (simp add: is_current_def)

text \<open>
  C3. Let \<open>cs\<close> be the string form of the tool's current version and \<open>rs\<close> the
  releases. If no release has the name \<open>cs\<close>, the status text is "Version Unknown",
  the class is \<^verbatim>\<open>status-neutral\<close> and the day count is \<^verbatim>\<open>null\<close>. Otherwise let
  \<open>r\<close> be the first release named \<open>cs\<close> and \<open>days\<close> its day count. If
  \<^verbatim>\<open>isEol\<close> of \<open>r\<close> is true (truthy), the status is "End of Life" with class
  \<^verbatim>\<open>status-eol\<close>, whatever \<open>days\<close> is. If it is not, and \<open>days\<close> is a number
  \<open>d \<le> 90\<close>, the status is "EOL in \<open>d\<close> Days" with class \<^verbatim>\<open>status-warning\<close>; if
  \<open>days\<close> is \<^verbatim>\<open>null\<close>, not a number or above 90, the status is "Maintained" with
  class \<^verbatim>\<open>status-active\<close>. A missing EOL date gives the day count \<^verbatim>\<open>null\<close>, hence
  never the warning, and an EOL date with time value \<open>t\<close> gives the ceiling of
  \<open>(t - now)\<close> divided by the milliseconds of a day.
\<close>

theorem lifecycle_status_cases:
  assumes "get item ''current'' = Inr cur" and "call_toString b cur = Inr cs"
  shows
    "((\<forall>x \<in> set rs. \<exists>nm. get x ''name'' = Inr nm \<and> nm \<noteq> Str cs) \<longrightarrow>
        lifecycle_status b now (Arr rs) item =
          Inr \<lparr>currentCycle = Undefined, daysUntilEol = None, isEol = Null,
               statusText = ''Version Unknown'', statusClass = ''status-neutral''\<rparr>) \<and>
     (rs = pre @ r # post \<and>
      (\<forall>x \<in> set pre. \<exists>nm. get x ''name'' = Inr nm \<and> nm \<noteq> Str cs) \<and>
      get r ''name'' = Inr (Str cs) \<and>
      calculateDaysRemaining b now (opt_get r ''eolFrom'') = Inr days \<longrightarrow>
        (\<exists>st. lifecycle_status b now (Arr rs) item = Inr st \<and>
           currentCycle st = r \<and> daysUntilEol st = days \<and>
           (truthy (opt_get r ''isEol'') \<longrightarrow>
              statusText st = ''End of Life'' \<and> statusClass st = ''status-eol'') \<and>
           (\<not> truthy (opt_get r ''isEol'') \<and> days = Some (Fin d) \<and> d \<le> 90 \<longrightarrow>
              statusText st = ''EOL in '' @ Number_toString b (Fin d) @ '' Days'' \<and>
              statusClass st = ''status-warning'') \<and>
           (\<not> truthy (opt_get r ''isEol'') \<and>
            (days = None \<or> days = Some NaN \<or> (\<exists>d'. days = Some (Fin d') \<and> 90 < d')) \<longrightarrow>
              statusText st = ''Maintained'' \<and> statusClass st = ''status-active'') \<and>
           (\<not> truthy (opt_get r ''eolFrom'') \<longrightarrow>
              days = None \<and> statusClass st \<noteq> ''status-warning'') \<and>
           (opt_get r ''eolFrom'' = Str s \<and> s \<noteq> [] \<and> date_parse b s = Some t \<longrightarrow>
              days = Some (Fin (of_int \<lceil>of_int (t - now) / (86400000 :: rat)\<rceil>)))))"
proof (intro conjI impI)
  assume none: "\<forall>x \<in> set rs. \<exists>nm. get x ''name'' = Inr nm \<and> nm \<noteq> Str cs"
  have "\<forall>x \<in> set rs. is_current b item x = Inr False"
    using none assms by (auto intro: is_current_other)
  then have "find_js (is_current b item) rs = Inr Undefined"
    by (rule find_js_none)
  then show "lifecycle_status b now (Arr rs) item =
      Inr \<lparr>currentCycle = Undefined, daysUntilEol = None, isEol = Null,
           statusText = ''Version Unknown'', statusClass = ''status-neutral''\<rparr>"
    by (simp add: lifecycle_status_def calculateDaysRemaining_def)
next
  assume m: "rs = pre @ r # post \<and>
      (\<forall>x \<in> set pre. \<exists>nm. get x ''name'' = Inr nm \<and> nm \<noteq> Str cs) \<and>
      get r ''name'' = Inr (Str cs) \<and>
      calculateDaysRemaining b now (opt_get r ''eolFrom'') = Inr days"
  have pre: "\<forall>x \<in> set pre. is_current b item x = Inr False"
    using m assms by (auto intro: is_current_other)
  have hit: "is_current b item r = Inr True"
    using m assms by (simp add: is_current_match)
  have found: "find_js (is_current b item) rs = Inr r"
    using m find_js_first [OF pre hit] by simp
  have tr: "truthy r"
    using m get_Str_truthy by blast
  define st where "st = \<lparr>currentCycle = r, daysUntilEol = days, isEol = opt_get r ''isEol'',
      statusText =
        (if \<not> truthy (opt_get r ''isEol'') \<and> within_90 days
         then ''EOL in '' @ (case days of None \<Rightarrow> ''null'' | Some n \<Rightarrow> Number_toString b n)
              @ '' Days''
         else if truthy (opt_get r ''isEol'') then ''End of Life'' else ''Maintained''),
      statusClass =
        (if truthy (opt_get r ''isEol'') then ''status-eol''
         else if within_90 days then ''status-warning'' else ''status-active'')\<rparr>"
  have run: "lifecycle_status b now (Arr rs) item = Inr st"
    using found tr m by (simp add: lifecycle_status_def st_def Let_def)
  have eol: "truthy (opt_get r ''isEol'') \<longrightarrow>
      statusText st = ''End of Life'' \<and> statusClass st = ''status-eol''"
    by (simp add: st_def)
  have warn: "\<not> truthy (opt_get r ''isEol'') \<and> days = Some (Fin d) \<and> d \<le> 90 \<longrightarrow>
      statusText st = ''EOL in '' @ Number_toString b (Fin d) @ '' Days'' \<and>
      statusClass st = ''status-warning''"
    by (simp add: st_def within_90_def)
  have act: "\<not> truthy (opt_get r ''isEol'') \<and>
      (days = None \<or> days = Some NaN \<or> (\<exists>d'. days = Some (Fin d') \<and> 90 < d')) \<longrightarrow>
      statusText st = ''Maintained'' \<and> statusClass st = ''status-active''"
  proof
    assume a: "\<not> truthy (opt_get r ''isEol'') \<and>
      (days = None \<or> days = Some NaN \<or> (\<exists>d'. days = Some (Fin d') \<and> 90 < d'))"
    then have "\<not> within_90 days"
      by (auto simp: within_90_def)
    with a show "statusText st = ''Maintained'' \<and> statusClass st = ''status-active''"
      by (simp add: st_def)
  qed
  have missing: "\<not> truthy (opt_get r ''eolFrom'') \<longrightarrow>
      days = None \<and> statusClass st \<noteq> ''status-warning''"
  proof
    assume "\<not> truthy (opt_get r ''eolFrom'')"
    with m have "days = None"
      by (simp add: calculateDaysRemaining_def)
    then show "days = None \<and> statusClass st \<noteq> ''status-warning''"
      by (simp add: st_def within_90_def)
  qed
  have dated: "opt_get r ''eolFrom'' = Str s \<and> s \<noteq> [] \<and> date_parse b s = Some t \<longrightarrow>
      days = Some (Fin (of_int \<lceil>of_int (t - now) / (86400000 :: rat)\<rceil>))"
    using m by (auto simp: calculateDaysRemaining_def Date_value_def parse_time_def days_from_def)
  show "\<exists>st. lifecycle_status b now (Arr rs) item = Inr st \<and>
           currentCycle st = r \<and> daysUntilEol st = days \<and>
           (truthy (opt_get r ''isEol'') \<longrightarrow>
              statusText st = ''End of Life'' \<and> statusClass st = ''status-eol'') \<and>
           (\<not> truthy (opt_get r ''isEol'') \<and> days = Some (Fin d) \<and> d \<le> 90 \<longrightarrow>
              statusText st = ''EOL in '' @ Number_toString b (Fin d) @ '' Days'' \<and>
              statusClass st = ''status-warning'') \<and>
           (\<not> truthy (opt_get r ''isEol'') \<and>
            (days = None \<or> days = Some NaN \<or> (\<exists>d'. days = Some (Fin d') \<and> 90 < d')) \<longrightarrow>
              statusText st = ''Maintained'' \<and> statusClass st = ''status-active'') \<and>
           (\<not> truthy (opt_get r ''eolFrom'') \<longrightarrow>
              days = None \<and> statusClass st \<noteq> ''status-warning'') \<and>
           (opt_get r ''eolFrom'' = Str s \<and> s \<noteq> [] \<and> date_parse b s = Some t \<longrightarrow>
              days = Some (Fin (of_int \<lceil>of_int (t - now) / (86400000 :: rat)\<rceil>)))"
    using run eol warn act missing dated by (intro exI [of _ st]) (simp add: st_def)
qed

text \<open>
  C3, witness: the release list of the specification's example, \<^verbatim>\<open>5.2\<close> at its end
  of life, \<^verbatim>\<open>5.1\<close> with an EOL date 45 days out, and a further release \<^verbatim>\<open>5.0\<close>
  without EOL date. The date of \<^verbatim>\<open>5.1\<close> is one second short of 45 days after
  \<open>now = 0\<close>, the date of \<^verbatim>\<open>5.2\<close> is 1000 days before.
\<close>

theorem lifecycle_status_cases_witness:
  "(\<exists>st. lifecycle_status
      \<lparr>number_text = (\<lambda>q. []),
       date_parse = (\<lambda>s. if s = ''2027-01-01'' then Some 3887999000
                           else if s = ''2020-01-01'' then Some (- 86400000000) else None)\<rparr>
      0
      (Arr [Obj [(''name'', Str ''5.2''), (''isEol'', Bool True), (''eolFrom'', Str ''2020-01-01'')],
            Obj [(''name'', Str ''5.1''), (''isEol'', Bool False), (''eolFrom'', Str ''2027-01-01'')],
            Obj [(''name'', Str ''5.0''), (''isEol'', Bool False)]])
      (Obj [(''name'', Str ''tool''), (''current'', Str ''5.1'')]) = Inr st \<and>
      daysUntilEol st = Some (Fin 45) \<and> statusText st = ''EOL in 45 Days'' \<and>
      statusClass st = ''status-warning'') \<and>
   (\<exists>st. lifecycle_status
      \<lparr>number_text = (\<lambda>q. []),
       date_parse = (\<lambda>s. if s = ''2027-01-01'' then Some 3887999000
                           else if s = ''2020-01-01'' then Some (- 86400000000) else None)\<rparr>
      0
      (Arr [Obj [(''name'', Str ''5.2''), (''isEol'', Bool True), (''eolFrom'', Str ''2020-01-01'')],
            Obj [(''name'', Str ''5.1''), (''isEol'', Bool False), (''eolFrom'', Str ''2027-01-01'')],
            Obj [(''name'', Str ''5.0''), (''isEol'', Bool False)]])
      (Obj [(''name'', Str ''tool''), (''current'', Str ''5.2'')]) = Inr st \<and>
      daysUntilEol st = Some (Fin (- 1000)) \<and> statusText st = ''End of Life'' \<and>
      statusClass st = ''status-eol'') \<and>
   (\<exists>st. lifecycle_status
      \<lparr>number_text = (\<lambda>q. []),
       date_parse = (\<lambda>s. if s = ''2027-01-01'' then Some 3887999000
                           else if s = ''2020-01-01'' then Some (- 86400000000) else None)\<rparr>
      0
      (Arr [Obj [(''name'', Str ''5.2''), (''isEol'', Bool True), (''eolFrom'', Str ''2020-01-01'')],
            Obj [(''name'', Str ''5.1''), (''isEol'', Bool False), (''eolFrom'', Str ''2027-01-01'')],
            Obj [(''name'', Str ''5.0''), (''isEol'', Bool False)]])
      (Obj [(''name'', Str ''tool''), (''current'', Str ''5.0'')]) = Inr st \<and>
      daysUntilEol st = None \<and> statusText st = ''Maintained'' \<and>
      statusClass st = ''status-active'') \<and>
   lifecycle_status
      \<lparr>number_text = (\<lambda>q. []),
       date_parse = (\<lambda>s. if s = ''2027-01-01'' then Some 3887999000
                           else if s = ''2020-01-01'' then Some (- 86400000000) else None)\<rparr>
      0
      (Arr [Obj [(''name'', Str ''5.2''), (''isEol'', Bool True), (''eolFrom'', Str ''2020-01-01'')],
            Obj [(''name'', Str ''5.1''), (''isEol'', Bool False), (''eolFrom'', Str ''2027-01-01'')],
            Obj [(''name'', Str ''5.0''), (''isEol'', Bool False)]])
      (Obj [(''name'', Str ''tool''), (''current'', Str ''9.9'')])
     = Inr \<lparr>currentCycle = Undefined, daysUntilEol = None, isEol = Null,
            statusText = ''Version Unknown'', statusClass = ''status-neutral''\<rparr>"
proof -
  let ?b = "\<lparr>number_text = (\<lambda>q. []),
       date_parse = (\<lambda>s. if s = ''2027-01-01'' then Some 3887999000
                           else if s = ''2020-01-01'' then Some (- 86400000000) else None)\<rparr>"
  let ?r2 = "Obj [(''name'', Str ''5.2''), (''isEol'', Bool True), (''eolFrom'', Str ''2020-01-01'')]"
  let ?r1 = "Obj [(''name'', Str ''5.1''), (''isEol'', Bool False), (''eolFrom'', Str ''2027-01-01'')]"
  let ?r0 = "Obj [(''name'', Str ''5.0''), (''isEol'', Bool False)]"
  let ?rs = "[?r2, ?r1, ?r0]"
  let ?item = "\<lambda>v. Obj [(''name'', Str ''tool''), (''current'', Str v)]"
  note main = lifecycle_status_cases [where b = ?b and now = 0 and rs = ?rs]
  note defs = call_toString_def tmpl_def calculateDaysRemaining_def Date_value_def
    parse_time_def days_from_def ceiling_rat_numeral ceiling_rat_minus_numeral text_defs
  have 1: "\<exists>st. lifecycle_status ?b 0 (Arr ?rs) (?item ''5.1'') = Inr st \<and>
      daysUntilEol st = Some (Fin 45) \<and> statusText st = ''EOL in 45 Days'' \<and>
      statusClass st = ''status-warning''"
    using main [where item = "?item ''5.1''" and cur = "Str ''5.1''" and cs = "''5.1''"
        and pre = "[?r2]" and r = ?r1 and post = "[?r0]" and days = "Some (Fin 45)" and d = 45,
        THEN conjunct2]
    by (auto simp: defs)
  have 2: "\<exists>st. lifecycle_status ?b 0 (Arr ?rs) (?item ''5.2'') = Inr st \<and>
      daysUntilEol st = Some (Fin (- 1000)) \<and> statusText st = ''End of Life'' \<and>
      statusClass st = ''status-eol''"
    using main [where item = "?item ''5.2''" and cur = "Str ''5.2''" and cs = "''5.2''"
        and pre = "[]" and r = ?r2 and post = "[?r1, ?r0]" and days = "Some (Fin (- 1000))",
        THEN conjunct2]
    by (auto simp: defs)
  have 3: "\<exists>st. lifecycle_status ?b 0 (Arr ?rs) (?item ''5.0'') = Inr st \<and>
      daysUntilEol st = None \<and> statusText st = ''Maintained'' \<and>
      statusClass st = ''status-active''"
    using main [where item = "?item ''5.0''" and cur = "Str ''5.0''" and cs = "''5.0''"
        and pre = "[?r2, ?r1]" and r = ?r0 and post = "[]" and days = None,
        THEN conjunct2]
    by (auto simp: defs)
  have 4: "lifecycle_status ?b 0 (Arr ?rs) (?item ''9.9'')
     = Inr \<lparr>currentCycle = Undefined, daysUntilEol = None, isEol = Null,
            statusText = ''Version Unknown'', statusClass = ''status-neutral''\<rparr>"
    using main [where item = "?item ''9.9''" and cur = "Str ''9.9''" and cs = "''9.9''",
        THEN conjunct1]
    by (simp add: defs)
  from 1 2 3 4 show ?thesis by blast
qed

section \<open>Batches\<close>

lemma settle_fulfilled:
  assumes "length slots = length vs"
  shows "\<exists>slots'. settle ks (map Inr vs) slots = Inr slots' \<and> length slots' = length vs \<and>
           (\<forall>j < length vs. slots' ! j = (if j \<in> set ks then Some (vs ! j) else slots ! j))"
  using assms
proof (induction ks arbitrary: slots)
  case Nil
  then show ?case by simp
next
  case (Cons k ks)
  show ?case
  proof (cases "k < length vs")
    case True
    let ?s1 = "slots[k := Some (vs ! k)]"
    have "length ?s1 = length vs"
      using Cons.prems by simp
    from Cons.IH [OF this] obtain slots' where
      s: "settle ks (map Inr vs) ?s1 = Inr slots'" and l: "length slots' = length vs"
      and n: "\<forall>j < length vs. slots' ! j = (if j \<in> set ks then Some (vs ! j) else ?s1 ! j)"
      by blast
    have "settle (k # ks) (map Inr vs) slots = Inr slots'"
      using True s by simp
    moreover have "\<forall>j < length vs.
        slots' ! j = (if j \<in> set (k # ks) then Some (vs ! j) else slots ! j)"
      using n True Cons.prems by (auto simp: nth_list_update)
    ultimately show ?thesis
      using l by blast
  next
    case False
    from Cons.IH [OF Cons.prems] obtain slots' where
      s: "settle ks (map Inr vs) slots = Inr slots'" and l: "length slots' = length vs"
      and n: "\<forall>j < length vs. slots' ! j = (if j \<in> set ks then Some (vs ! j) else slots ! j)"
      by blast
    have "settle (k # ks) (map Inr vs) slots = Inr slots'"
      using False s by simp
    moreover have "\<forall>j < length vs.
        slots' ! j = (if j \<in> set (k # ks) then Some (vs ! j) else slots ! j)"
      using n False by auto
    ultimately show ?thesis
      using l by blast
  qed
qed

lemma map_filter_Some: "List.map_filter (\<lambda>s. s) (map Some vs) = vs"
  by (induction vs) (simp_all add: List.map_filter_simps)

lemma promise_all_fulfilled: "promise_all order (map Inr vs) = Inr vs"
proof -
  let ?n = "length vs"
  have "length (replicate ?n (None :: 'a option)) = length vs"
    by simp
  from settle_fulfilled [OF this, of "order @ [0..<?n]"] obtain slots' where
    s: "settle (order @ [0..<?n]) (map Inr vs) (replicate ?n None) = Inr slots'"
    and l: "length slots' = ?n"
    and n: "\<forall>j < ?n. slots' ! j =
      (if j \<in> set (order @ [0..<?n]) then Some (vs ! j) else replicate ?n None ! j)"
    by blast
  have "slots' = map Some vs"
    using l n by (intro nth_equalityI) auto
  then show ?thesis
    using s by (simp add: promise_all_def map_filter_Some)
qed

lemma settle_rejects:
  assumes "\<forall>j < length outs. \<forall>e'. outs ! j = Inl e' \<longrightarrow> e' = e"
  shows "settle ks outs slots = Inl e \<or>
         ((\<exists>s. settle ks outs slots = Inr s) \<and>
          (\<forall>k \<in> set ks. k < length outs \<longrightarrow> (\<exists>v. outs ! k = Inr v)))"
  using assms
proof (induction ks arbitrary: slots)
  case Nil
  then show ?case by simp
next
  case (Cons k ks)
  show ?case
  proof (cases "k < length outs")
    case False
    then show ?thesis
      using Cons.IH [OF Cons.prems, of slots] by auto
  next
    case True
    show ?thesis
    proof (cases "outs ! k")
      case (Inl e')
      then have "e' = e"
        using True Cons.prems by blast
      then show ?thesis
        using True Inl by simp
    next
      case (Inr v)
      then show ?thesis
        using True Cons.IH [OF Cons.prems, of "slots[k := Some v]"] by auto
    qed
  qed
qed

lemma promise_all_rejects:
  assumes "\<forall>j < length outs. \<forall>e'. outs ! j = Inl e' \<longrightarrow> e' = e"
    and "k < length outs" and "outs ! k = Inl e"
  shows "promise_all order outs = Inl e"
proof -
  have "k \<in> set (order @ [0..<length outs])"
    using assms(2) by simp
  then have "settle (order @ [0..<length outs]) outs (replicate (length outs) None) = Inl e"
    using settle_rejects [OF assms(1), of "order @ [0..<length outs]" "replicate (length outs) None"]
      assms(2,3) by auto
  then show ?thesis
    by (simp add: promise_all_def)
qed

lemma forEach_rows_rendered:
  assumes "length ros = length fs"
    and "\<forall>j < length fs. render_row (lang w) (clock w (k + j)) (k + j) (fs ! j) = Inr (ros ! j)"
  shows "forEach_rows w k fs tr = (None, tr @ map Row (List.map_filter (\<lambda>r. r) ros))"
  using assms
proof (induction fs arbitrary: k tr ros)
  case Nil
  then show ?case by (simp add: List.map_filter_simps)
next
  case (Cons f fs)
  then obtain ro ros' where ros: "ros = ro # ros'"
    by (cases ros) auto
  have len: "length ros' = length fs"
    using Cons.prems(1) ros by simp
  have first: "render_row (lang w) (clock w k) k f = Inr ro"
    using Cons.prems(2) ros by force
  have rest: "\<forall>j < length fs.
      render_row (lang w) (clock w (Suc k + j)) (Suc k + j) (fs ! j) = Inr (ros' ! j)"
  proof (intro allI impI)
    fix j
    assume "j < length fs"
    then have "Suc j < length (f # fs)" by simp
    with Cons.prems(2) have
      "render_row (lang w) (clock w (k + Suc j)) (k + Suc j) ((f # fs) ! Suc j) = Inr (ros ! Suc j)"
      by blast
    then show "render_row (lang w) (clock w (Suc k + j)) (Suc k + j) (fs ! j) = Inr (ros' ! j)"
      using ros by simp
  qed
  note IH = Cons.IH [OF len rest]
  show ?case
  proof (cases ro)
    case None
    then show ?thesis
      using first ros IH [of tr] by (simp add: List.map_filter_simps)
  next
    case (Some r)
    then show ?thesis
      using first ros IH [of "tr @ [Row r]"] by (simp add: List.map_filter_simps)
  qed
qed

lemma row_of_split:
  "row_of w k item = Inr ro \<Longrightarrow>
   \<exists>f. run_task w k item = Inr f \<and> render_row (lang w) (clock w k) k f = Inr ro"
  by (cases "run_task w k item") (simp_all add: row_of_def)

lemma loop_step:
  assumes "i < length cfg"
    and "length ros = length (take BATCH_SIZE (drop i cfg))"
    and "\<forall>j < length ros. row_of w (i + j) (cfg ! (i + j)) = Inr (ros ! j)"
  shows "initDashboard_loop w order cfg i tr =
     initDashboard_loop w order cfg (i + BATCH_SIZE)
       (tr @ Batch i (length ros) # map Row (List.map_filter (\<lambda>r. r) ros) @
        [Count (min (i + length ros) (length cfg)) (length cfg)])"
proof -
  let ?batch = "take BATCH_SIZE (drop i cfg)"
  let ?n = "length ros"
  have n: "length ?batch = ?n"
    using assms(2) by simp
  have nth: "\<forall>j < ?n. ?batch ! j = cfg ! (i + j)"
    using n by auto
  have "\<forall>j < ?n. \<exists>f. run_task w (i + j) (cfg ! (i + j)) = Inr f \<and>
      render_row (lang w) (clock w (i + j)) (i + j) f = Inr (ros ! j)"
    using assms(3) row_of_split by blast
  then obtain g where g: "\<forall>j < ?n. run_task w (i + j) (cfg ! (i + j)) = Inr (g j) \<and>
      render_row (lang w) (clock w (i + j)) (i + j) (g j) = Inr (ros ! j)"
    by metis
  let ?fs = "map g [0..<?n]"
  have outs: "map (\<lambda>j. run_task w (i + j) (?batch ! j)) [0..<length ?batch] = map Inr ?fs"
    using g nth n by (intro nth_equalityI) auto
  have all: "promise_all (order i)
      (map (\<lambda>j. run_task w (i + j) (?batch ! j)) [0..<length ?batch]) = Inr ?fs"
    unfolding outs by (rule promise_all_fulfilled)
  have each: "forEach_rows w i ?fs (tr @ [Batch i ?n]) =
      (None, (tr @ [Batch i ?n]) @ map Row (List.map_filter (\<lambda>r. r) ros))"
    using g by (intro forEach_rows_rendered) auto
  show ?thesis
    using assms(1) all each n
    by (subst initDashboard_loop.simps) (simp add: Let_def)
qed

lemma table_rows_simps:
  "table_rows [] = []"
  "table_rows (Row r # tr) = r # table_rows tr"
  "table_rows (Batch i n # tr) = table_rows tr"
  "table_rows (Count a m # tr) = table_rows tr"
  "table_rows (Logged e # tr) = table_rows tr"
  "table_rows (tr @ tr') = table_rows tr @ table_rows tr'"
  "table_rows (map Row rs) = rs"
  by (simp_all add: table_rows_def) (induction rs, simp_all)

lemma item_counts_simps:
  "item_counts [] = []"
  "item_counts (Row r # tr) = item_counts tr"
  "item_counts (Batch i n # tr) = item_counts tr"
  "item_counts (Count a m # tr) = (a, m) # item_counts tr"
  "item_counts (Logged e # tr) = item_counts tr"
  "item_counts (tr @ tr') = item_counts tr @ item_counts tr'"
  "item_counts (map Row rs) = []"
  by (simp_all add: item_counts_def)

lemma batch_sizes_simps:
  "batch_sizes [] = []"
  "batch_sizes (Row r # tr) = batch_sizes tr"
  "batch_sizes (Batch i n # tr) = n # batch_sizes tr"
  "batch_sizes (Count a m # tr) = batch_sizes tr"
  "batch_sizes (Logged e # tr) = batch_sizes tr"
  "batch_sizes (tr @ tr') = batch_sizes tr @ batch_sizes tr'"
  "batch_sizes (map Row rs) = []"
  by (simp_all add: batch_sizes_def)

lemma loop_end: "length cfg \<le> i \<Longrightarrow> initDashboard_loop w order cfg i tr = tr"
  by (subst initDashboard_loop.simps) simp

text \<open>
  C10. For a configuration of 12 tools whose fetches and rows raise nothing (\<open>ros\<close>
  lists, per tool, its row or \<open>None\<close> for a tool that is skipped), and for every order
  in which the tasks of each batch settle: the run consists of three batches of sizes 5,
  5 and 2, one after the other, each followed by its item count, (5, 12), (10, 12) and
  (12, 12); and the rows of the table are the rows of the tools in the order of the
  configuration.
\<close>

theorem initDashboard_twelve_tools:
  assumes "length cfg = 12" and "length ros = 12"
    and "\<forall>k < 12. row_of w k (cfg ! k) = Inr (ros ! k)"
  shows "initDashboard w order cfg =
           Batch 0 5 # map Row (List.map_filter (\<lambda>r. r) (take 5 ros)) @
           Count 5 12 # Batch 5 5 # map Row (List.map_filter (\<lambda>r. r) (take 5 (drop 5 ros))) @
           Count 10 12 # Batch 10 2 # map Row (List.map_filter (\<lambda>r. r) (drop 10 ros)) @
           [Count 12 12] \<and>
         batch_sizes (initDashboard w order cfg) = [5, 5, 2] \<and>
         item_counts (initDashboard w order cfg) = [(5, 12), (10, 12), (12, 12)] \<and>
         table_rows (initDashboard w order cfg) = List.map_filter (\<lambda>r. r) ros"
proof -
  let ?r1 = "take 5 ros" and ?r2 = "take 5 (drop 5 ros)" and ?r3 = "drop 10 ros"
  let ?rows = "\<lambda>rs. map Row (List.map_filter (\<lambda>r. r) rs)"
  have s1: "initDashboard_loop w order cfg 0 [] =
      initDashboard_loop w order cfg 5 (Batch 0 5 # ?rows ?r1 @ [Count 5 12])"
    using loop_step [of 0 cfg ?r1 w order "[]"] assms by (simp add: BATCH_SIZE_def)
  have s2: "initDashboard_loop w order cfg 5 (Batch 0 5 # ?rows ?r1 @ [Count 5 12]) =
      initDashboard_loop w order cfg 10
        (Batch 0 5 # ?rows ?r1 @ Count 5 12 # Batch 5 5 # ?rows ?r2 @ [Count 10 12])"
    using loop_step [of 5 cfg ?r2 w order "Batch 0 5 # ?rows ?r1 @ [Count 5 12]"] assms
    by (simp add: BATCH_SIZE_def)
  have s3: "initDashboard_loop w order cfg 10
        (Batch 0 5 # ?rows ?r1 @ Count 5 12 # Batch 5 5 # ?rows ?r2 @ [Count 10 12]) =
      initDashboard_loop w order cfg 15
        (Batch 0 5 # ?rows ?r1 @ Count 5 12 # Batch 5 5 # ?rows ?r2 @
         Count 10 12 # Batch 10 2 # ?rows ?r3 @ [Count 12 12])"
    using loop_step [of 10 cfg ?r3 w order
        "Batch 0 5 # ?rows ?r1 @ Count 5 12 # Batch 5 5 # ?rows ?r2 @ [Count 10 12]"] assms
    by (simp add: BATCH_SIZE_def)
  have run: "initDashboard w order cfg =
      Batch 0 5 # ?rows ?r1 @ Count 5 12 # Batch 5 5 # ?rows ?r2 @
      Count 10 12 # Batch 10 2 # ?rows ?r3 @ [Count 12 12]"
    using s1 s2 s3 assms(1) by (simp add: initDashboard_def loop_end)
  have "?r2 @ ?r3 = drop 5 ros"
    using append_take_drop_id [of 5 "drop 5 ros"] by simp
  then have split: "ros = ?r1 @ ?r2 @ ?r3"
    by simp
  have mf: "List.map_filter (\<lambda>r. r) ros =
      List.map_filter (\<lambda>r. r) ?r1 @ List.map_filter (\<lambda>r. r) ?r2 @ List.map_filter (\<lambda>r. r) ?r3"
    by (subst split) (simp add: List.map_filter_def del: append_take_drop_id)
  have b: "batch_sizes (initDashboard w order cfg) = [5, 5, 2]"
    unfolding run by (simp add: batch_sizes_simps)
  have c: "item_counts (initDashboard w order cfg) = [(5, 12), (10, 12), (12, 12)]"
    unfolding run by (simp add: item_counts_simps)
  have t: "table_rows (initDashboard w order cfg) = List.map_filter (\<lambda>r. r) ros"
    unfolding run mf by (simp add: table_rows_simps)
  from run b c t show ?thesis
    by blast
qed

lemmas row_defs = row_of_def run_task_def fetch_item_def fetch_lifecycle_def
  fetchOSVVulnerabilities_def fetchNVDVulnerabilities_def or_js_def
  render_row_def render_header_def lifecycle_status_def is_current_def call_toString_def
  tmpl_def calculateDaysRemaining_def within_90_def history_row_def elements_def is_found_def
  osv_section_def nvd_section_def Let_def

lemma example_row_of:
  "row_of example_world k example_tool = Inr (if k = 7 then None else Some (example_row k))"
  by (simp add: row_defs example_world_def example_tool_def example_lifecycle_def
      example_lang_def example_row_def example_header_def)

text \<open>
  C10, witness: the example configuration. Tool 7 is skipped; the rows of the other
  eleven tools appear in the order of the configuration although the tasks of the second
  batch settle in the order 9, 7, 5, 8, 6.
\<close>

theorem initDashboard_twelve_tools_witness:
  "batch_sizes (initDashboard example_world example_order (replicate 12 example_tool))
     = [5, 5, 2] \<and>
   item_counts (initDashboard example_world example_order (replicate 12 example_tool))
     = [(5, 12), (10, 12), (12, 12)] \<and>
   table_rows (initDashboard example_world example_order (replicate 12 example_tool))
     = map example_row [0, 1, 2, 3, 4, 5, 6, 8, 9, 10, 11]"
proof -
  let ?ros = "map (\<lambda>k. if k = 7 then None else Some (example_row k)) [0..<12]"
  have len: "length (replicate 12 example_tool) = 12" "length ?ros = 12"
    by simp_all
  have each: "\<forall>k < 12. row_of example_world k (replicate 12 example_tool ! k) = Inr (?ros ! k)"
    by (simp add: example_row_of)
  have upt: "[0..<12] = [0, 1, 2, 3, 4, 5, 6, 7, 8, 9, 10, 11 :: nat]"
    by (simp add: upt_conv_Cons)
  have rows: "List.map_filter (\<lambda>r. r) ?ros = map example_row [0, 1, 2, 3, 4, 5, 6, 8, 9, 10, 11]"
    unfolding upt by (simp add: List.map_filter_simps)
  note main = initDashboard_twelve_tools [OF len each, of example_order]
  from main [THEN conjunct2, THEN conjunct1] main [THEN conjunct2, THEN conjunct2]
  show ?thesis
    unfolding rows by blast
qed

section \<open>A lifecycle body that does not decode\<close>

lemma example_task_undecodable:
  "run_task undecodable_world k example_tool
   = (if k = 1 then Inl SyntaxError
      else Inr \<lparr>lifecycle = example_lifecycle, osvVulns = Arr [], nvdVulns = Arr [],
                configItem = example_tool\<rparr>)"
  by (simp add: row_defs undecodable_world_def example_world_def example_tool_def)

text \<open>
  C9. The claim is that a lifecycle fetch failure, also a decoding error on the response
  body, skips only that tool. In the example configuration with a successful response
  for every tool, but a body for tool 1 that does not decode, the run ends in the first
  batch with the logged error, whatever the order in which the tasks settle: no row is
  appended, neither for the other four tools of the batch nor for the seven tools of the
  later batches, and no item count is shown.
\<close>

theorem initDashboard_undecodable_lifecycle_halts:
  "initDashboard undecodable_world order (replicate 12 example_tool)
   = [Batch 0 5, Logged SyntaxError]"
proof -
  let ?w = undecodable_world
  let ?cfg = "replicate 12 example_tool"
  let ?batch = "take BATCH_SIZE (drop 0 ?cfg)"
  let ?outs = "map (\<lambda>j. run_task ?w (0 + j) (?batch ! j)) [0..<length ?batch]"
  have n: "length ?batch = 5"
    by (simp add: BATCH_SIZE_def)
  have nth: "\<forall>j < 5. ?outs ! j = run_task ?w j example_tool"
    using n by (simp add: BATCH_SIZE_def)
  have lo: "length ?outs = 5"
    using n by simp
  have one: "\<forall>j < length ?outs. \<forall>e'. ?outs ! j = Inl e' \<longrightarrow> e' = SyntaxError"
    unfolding lo using nth by (auto simp: example_task_undecodable split: if_splits)
  have hit: "?outs ! 1 = Inl SyntaxError"
    using nth by (simp add: example_task_undecodable)
  have k: "1 < length ?outs"
    unfolding lo by simp
  have "promise_all (order 0) ?outs = Inl SyntaxError"
    using one k hit by (rule promise_all_rejects)
  then show ?thesis
    using n by (simp add: initDashboard_def initDashboard_loop.simps [of _ _ _ 0] Let_def)
qed

section \<open>A failing advisory source\<close>

lemma is_found_iff: "is_found v \<longleftrightarrow> (\<exists>x xs. v = Arr (x # xs))"
  by (cases v) (auto simp: is_found_def neq_Nil_conv)

lemma render_row_has_vulns:
  "render_row b now k res = Inr (Some r) \<Longrightarrow>
   data_has_vulns r = (is_found (osvVulns res) \<or> is_found (nvdVulns res))"
  by (auto simp: render_row_def bindE_def split: sum.splits option.splits)

lemma fetchOSVVulnerabilities_fails:
  "truthy version \<Longrightarrow> resp = Rejected \<or> resp = Response ok None \<Longrightarrow>
   fetchOSVVulnerabilities resp name version = Str ''Err''"
  by (auto simp: fetchOSVVulnerabilities_def)

lemma or_js_found: "is_found (or_js v (Arr [])) \<longleftrightarrow> (\<exists>x xs. v = Arr (x # xs))"
  by (cases v) (auto simp: or_js_def is_found_def neq_Nil_conv)

lemma is_found_fetchOSV:
  "is_found (fetchOSVVulnerabilities resp name v) \<longleftrightarrow>
     truthy v \<and> \<not> ToString_raises v \<and>
     (\<exists>ok data x xs. resp = Response ok (Some data) \<and> get data ''vulns'' = Inr (Arr (x # xs)))"
proof (cases "truthy v \<and> \<not> ToString_raises v")
  case False
  then show ?thesis
    by (auto simp: fetchOSVVulnerabilities_def is_found_def)
next
  case True
  show ?thesis
  proof (cases resp)
    case Rejected
    with True show ?thesis
      by (simp add: fetchOSVVulnerabilities_def is_found_def)
  next
    case (Response ok body)
    show ?thesis
    proof (cases body)
      case None
      with True Response show ?thesis
        by (simp add: fetchOSVVulnerabilities_def is_found_def)
    next
      case (Some data)
      show ?thesis
      proof (cases "get data ''vulns''")
        case (Inl e)
        with True Response Some show ?thesis
          by (simp add: fetchOSVVulnerabilities_def is_found_def)
      next
        case (Inr u)
        with True Response Some show ?thesis
          by (simp add: fetchOSVVulnerabilities_def or_js_found)
      qed
    qed
  qed
qed

lemma is_found_fetchNVD:
  "is_found (fetchNVDVulnerabilities resp name v) \<longleftrightarrow>
     truthy v \<and> \<not> ToString_raises name \<and> \<not> ToString_raises v \<and>
     (\<exists>data x xs. resp = Response True (Some data) \<and>
        get data ''vulnerabilities'' = Inr (Arr (x # xs)))"
proof (cases "truthy v \<and> \<not> ToString_raises name \<and> \<not> ToString_raises v")
  case False
  then show ?thesis
    by (auto simp: fetchNVDVulnerabilities_def is_found_def)
next
  case True
  show ?thesis
  proof (cases resp)
    case Rejected
    with True show ?thesis
      by (simp add: fetchNVDVulnerabilities_def is_found_def)
  next
    case (Response ok body)
    show ?thesis
    proof (cases "ok")
      case False
      with True Response show ?thesis
        by (simp add: fetchNVDVulnerabilities_def is_found_def)
    next
      case ok: True
      show ?thesis
      proof (cases body)
        case None
        with True Response ok show ?thesis
          by (simp add: fetchNVDVulnerabilities_def is_found_def)
      next
        case (Some data)
        show ?thesis
        proof (cases "get data ''vulnerabilities''")
          case (Inl e)
          with True Response ok Some show ?thesis
            by (simp add: fetchNVDVulnerabilities_def is_found_def)
        next
          case (Inr u)
          with True Response ok Some show ?thesis
            by (simp add: fetchNVDVulnerabilities_def or_js_found)
        qed
      qed
    qed
  qed
qed

lemma row_of_has_vulns:
  assumes "row_of w k item = Inr (Some r)"
  shows "data_has_vulns r =
     (truthy (opt_get item ''current'') \<and> \<not> ToString_raises (opt_get item ''current'') \<and>
      ((\<exists>ok data x xs. osv_resp w k = Response ok (Some data) \<and>
          get data ''vulns'' = Inr (Arr (x # xs))) \<or>
       (\<exists>data x xs. nvd_resp w k = Response True (Some data) \<and>
          get data ''vulnerabilities'' = Inr (Arr (x # xs)))))"
proof -
  from assms obtain f where f: "run_task w k item = Inr f"
    and r: "render_row (lang w) (clock w k) k f = Inr (Some r)"
    using row_of_split by blast
  from f obtain name where name: "get item ''name'' = Inr name"
    by (cases "get item ''name''") (simp_all add: run_task_def fetch_item_def)
  from f name have nr: "\<not> ToString_raises name"
    by (auto simp: run_task_def fetch_item_def split: if_splits)
  from f name nr obtain lc where lc: "fetch_lifecycle (lifecycle_resp w k) = Inr lc"
    by (cases "fetch_lifecycle (lifecycle_resp w k)") (simp_all add: run_task_def fetch_item_def)
  from f name nr lc have
    "osvVulns f = fetchOSVVulnerabilities (osv_resp w k) name (opt_get item ''current'')"
    "nvdVulns f = fetchNVDVulnerabilities (nvd_resp w k) name (opt_get item ''current'')"
    by (auto simp: run_task_def fetch_item_def)
  then show ?thesis
    using render_row_has_vulns [OF r] nr
    by (simp add: is_found_fetchOSV is_found_fetchNVD) blast
qed

text \<open>The rows of a run, batch by batch.\<close>

lemma map_filter_append:
  "List.map_filter f (xs @ ys) = List.map_filter f xs @ List.map_filter f ys"
  by (simp add: List.map_filter_def)

lemma forEach_rows_extends: "\<exists>rs. snd (forEach_rows w k fs tr) = tr @ map Row rs"
proof (induction fs arbitrary: k tr)
  case Nil
  then show ?case by simp
next
  case (Cons res rest)
  show ?case
  proof (cases "render_row (lang w) (clock w k) k res")
    case (Inl e)
    then show ?thesis by simp
  next
    case (Inr ro)
    show ?thesis
    proof (cases ro)
      case None
      with Inr Cons.IH [of "Suc k" tr] show ?thesis by simp
    next
      case (Some r)
      from Cons.IH [of "Suc k" "tr @ [Row r]"] obtain rs
        where "snd (forEach_rows w (Suc k) rest (tr @ [Row r])) = (tr @ [Row r]) @ map Row rs"
        by blast
      with Inr Some have "snd (forEach_rows w k (res # rest) tr) = tr @ map Row (r # rs)"
        by simp
      then show ?thesis by blast
    qed
  qed
qed

lemma loop_keeps_rows:
  "\<exists>rs. table_rows (initDashboard_loop w order cfg i tr) = table_rows tr @ rs"
proof (induction "length cfg - i" arbitrary: i tr rule: less_induct)
  case less
  show ?case
  proof (cases "i < length cfg")
    case False
    then show ?thesis by (simp add: loop_end)
  next
    case True
    let ?batch = "take BATCH_SIZE (drop i cfg)"
    let ?tr1 = "tr @ [Batch i (length ?batch)]"
    let ?tasks = "map (\<lambda>j. run_task w (i + j) (?batch ! j)) [0..<length ?batch]"
    show ?thesis
    proof (cases "promise_all (order i) ?tasks")
      case (Inl e)
      with True have "initDashboard_loop w order cfg i tr = ?tr1 @ [Logged e]"
        by (subst initDashboard_loop.simps) (simp add: Let_def)
      then show ?thesis by (simp add: table_rows_simps)
    next
      case (Inr results)
      obtain eo tr2 where fe: "forEach_rows w i results ?tr1 = (eo, tr2)"
        by (cases "forEach_rows w i results ?tr1")
      from forEach_rows_extends [of w i results ?tr1] fe obtain rs
        where tr2: "tr2 = ?tr1 @ map Row rs"
        by auto
      show ?thesis
      proof (cases eo)
        case (Some e)
        with True Inr fe have "initDashboard_loop w order cfg i tr = tr2 @ [Logged e]"
          by (subst initDashboard_loop.simps) (simp add: Let_def)
        then show ?thesis by (simp add: tr2 table_rows_simps)
      next
        case None
        let ?tr3 = "tr2 @ [Count (min (i + length ?batch) (length cfg)) (length cfg)]"
        from True Inr fe None have step: "initDashboard_loop w order cfg i tr =
            initDashboard_loop w order cfg (i + BATCH_SIZE) ?tr3"
          by (subst initDashboard_loop.simps) (simp add: Let_def)
        have "length cfg - (i + BATCH_SIZE) < length cfg - i"
          using True by (simp add: BATCH_SIZE_def)
        then obtain rs' where
          "table_rows (initDashboard_loop w order cfg (i + BATCH_SIZE) ?tr3) =
           table_rows ?tr3 @ rs'"
          using less by blast
        then have "table_rows (initDashboard_loop w order cfg i tr) = table_rows tr @ (rs @ rs')"
          unfolding step by (simp add: tr2 table_rows_simps)
        then show ?thesis by blast
      qed
    qed
  qed
qed

lemma loop_rows_batches:
  assumes "length ros = length cfg"
    and "\<forall>j < length cfg. i \<le> j \<and> j < i + n * BATCH_SIZE \<longrightarrow>
           row_of w j (cfg ! j) = Inr (ros ! j)"
  shows "\<exists>rs. table_rows (initDashboard_loop w order cfg i tr) =
           table_rows tr @ List.map_filter (\<lambda>r. r) (take (n * BATCH_SIZE) (drop i ros)) @ rs"
  using assms(2)
proof (induction n arbitrary: i tr)
  case 0
  then show ?case
    using loop_keeps_rows [of w order cfg i tr] by (simp add: List.map_filter_simps)
next
  case (Suc n)
  show ?case
  proof (cases "i < length cfg")
    case False
    then show ?thesis
      using assms(1) by (simp add: loop_end List.map_filter_simps)
  next
    case True
    let ?b = "take BATCH_SIZE (drop i ros)"
    let ?tr = "tr @ Batch i (length ?b) # map Row (List.map_filter (\<lambda>r. r) ?b) @
        [Count (min (i + length ?b) (length cfg)) (length cfg)]"
    have len: "length ?b = length (take BATCH_SIZE (drop i cfg))"
      using assms(1) by simp
    have each: "\<forall>j < length ?b. row_of w (i + j) (cfg ! (i + j)) = Inr (?b ! j)"
      using assms(1) Suc.prems by auto
    have step: "initDashboard_loop w order cfg i tr =
        initDashboard_loop w order cfg (i + BATCH_SIZE) ?tr"
      using loop_step [OF True len each] .
    have "\<forall>j < length cfg. i + BATCH_SIZE \<le> j \<and> j < i + BATCH_SIZE + n * BATCH_SIZE \<longrightarrow>
        row_of w j (cfg ! j) = Inr (ros ! j)"
      using Suc.prems by simp
    from Suc.IH [OF this, of ?tr] obtain rs where
      IH: "table_rows (initDashboard_loop w order cfg (i + BATCH_SIZE) ?tr) =
        table_rows ?tr @
        List.map_filter (\<lambda>r. r) (take (n * BATCH_SIZE) (drop (i + BATCH_SIZE) ros)) @ rs"
      by blast
    have "take (Suc n * BATCH_SIZE) (drop i ros) =
        ?b @ take (n * BATCH_SIZE) (drop (i + BATCH_SIZE) ros)"
      using take_add [of BATCH_SIZE "n * BATCH_SIZE" "drop i ros"]
      by (simp add: add.commute)
    then have "List.map_filter (\<lambda>r. r) (take (Suc n * BATCH_SIZE) (drop i ros)) =
        List.map_filter (\<lambda>r. r) ?b @
        List.map_filter (\<lambda>r. r) (take (n * BATCH_SIZE) (drop (i + BATCH_SIZE) ros))"
      by (simp add: map_filter_append)
    then have "table_rows (initDashboard_loop w order cfg i tr) =
        table_rows tr @
        List.map_filter (\<lambda>r. r) (take (Suc n * BATCH_SIZE) (drop i ros)) @ rs"
      unfolding step IH by (simp add: table_rows_simps)
    then show ?thesis by blast
  qed
qed

lemma loop_rows:
  assumes "length ros = length cfg"
    and "\<forall>j < length cfg. row_of w j (cfg ! j) = Inr (ros ! j)"
  shows "table_rows (initDashboard_loop w order cfg i tr) =
         table_rows tr @ List.map_filter (\<lambda>r. r) (drop i ros)"
proof (induction "length cfg - i" arbitrary: i tr rule: less_induct)
  case less
  show ?case
  proof (cases "i < length cfg")
    case False
    then show ?thesis
      using assms(1) by (simp add: loop_end List.map_filter_simps)
  next
    case True
    let ?b = "take BATCH_SIZE (drop i ros)"
    let ?tr = "tr @ Batch i (length ?b) # map Row (List.map_filter (\<lambda>r. r) ?b) @
        [Count (min (i + length ?b) (length cfg)) (length cfg)]"
    have len: "length ?b = length (take BATCH_SIZE (drop i cfg))"
      using assms(1) by simp
    have each: "\<forall>j < length ?b. row_of w (i + j) (cfg ! (i + j)) = Inr (?b ! j)"
      using assms by auto
    have step: "initDashboard_loop w order cfg i tr =
        initDashboard_loop w order cfg (i + BATCH_SIZE) ?tr"
      using loop_step [OF True len each] .
    have "length cfg - (i + BATCH_SIZE) < length cfg - i"
      using True by (simp add: BATCH_SIZE_def)
    then have IH: "table_rows (initDashboard_loop w order cfg (i + BATCH_SIZE) ?tr) =
        table_rows ?tr @ List.map_filter (\<lambda>r. r) (drop (i + BATCH_SIZE) ros)"
      by (rule less)
    have "?b @ drop (i + BATCH_SIZE) ros = drop i ros"
      using append_take_drop_id [of BATCH_SIZE "drop i ros"] by (simp add: add.commute)
    then have "List.map_filter (\<lambda>r. r) (drop i ros) =
        List.map_filter (\<lambda>r. r) ?b @ List.map_filter (\<lambda>r. r) (drop (i + BATCH_SIZE) ros)"
      by (metis map_filter_append)
    then show ?thesis
      unfolding step IH by (simp add: table_rows_simps)
  qed
qed

text \<open>
  C8. Take a run over the configured tools \<open>cfg\<close> and a tool \<open>k\<close> whose lifecycle
  request is answered successfully with a record from which the row's lifecycle part
  \<open>h\<close> can be built, whose version is truthy, and whose request to source A is rejected
  or answered with a body that does not decode; let \<open>nv\<close> be what
  \<^verbatim>\<open>fetchNVDVulnerabilities\<close> returns for it (a list or the failure string) and
  \<open>nvd\<close> the source B part of its row. Let the tasks and rows of the other tools of the
  batches up to the batch of tool \<open>k\<close> raise nothing (\<open>ros\<close> lists, per tool, its row
  or \<open>None\<close> for a skipped tool); the later batches may end in any way. Then the task
  of tool \<open>k\<close> is fulfilled with the failure string \<^verbatim>\<open>'Err'\<close> for source A, and the
  table of the run starts with the rows of the batches up to the batch of tool \<open>k\<close> in
  configuration order, the row of tool \<open>k\<close> among them: with no source A advisories, a
  source A count of 0, and \<^verbatim>\<open>hasAnyVulns\<close> equal to whether source B returned a
  non-empty list, which it does iff its answer is successful and the body holds a
  non-empty array \<^verbatim>\<open>vulnerabilities\<close>. When the later tools raise nothing either,
  the table consists of the rows of all tools. In general, for every tool that gets a
  row, \<^verbatim>\<open>hasAnyVulns\<close> is true iff the requests were made (the version is truthy and
  converts to a string) and the body of the answer of source A holds a non-empty array
  \<^verbatim>\<open>vulns\<close> or the body of a successful answer of source B holds a non-empty array
  \<^verbatim>\<open>vulnerabilities\<close>; a failed request returns no array.
\<close>

theorem source_A_failure_keeps_tool:
  assumes "k < length cfg" and "length ros = length cfg"
    and "\<forall>j < length cfg. j \<noteq> k \<and> j < (k div BATCH_SIZE + 1) * BATCH_SIZE \<longrightarrow>
           row_of w j (cfg ! j) = Inr (ros ! j)"
    and "get (cfg ! k) ''name'' = Inr name" and "\<not> ToString_raises name"
    and "cur = opt_get (cfg ! k) ''current''" and "truthy cur"
    and "lifecycle_resp w k = Response True (Some lc)"
    and "osv_resp w k = Rejected \<or> osv_resp w k = Response ok None"
    and "nv = fetchNVDVulnerabilities (nvd_resp w k) name cur"
    and "render_header (lang w) (clock w k) lc (cfg ! k) = Inr (Some h)"
    and "nvd_section (lang w) nv = Inr nvd"
    and "R = \<lparr>row_index = k, row_header = h, data_has_vulns = is_found nv,
              osv_count = 0, osv_advisories = [],
              nvd_count = (if is_found nv then length (elements nv) else 0),
              nvd_advisories = nvd\<rparr>"
  shows "run_task w k (cfg ! k) =
           Inr \<lparr>lifecycle = lc, osvVulns = Str ''Err'', nvdVulns = nv, configItem = cfg ! k\<rparr> \<and>
         row_of w k (cfg ! k) = Inr (Some R) \<and>
         (\<exists>rs. table_rows (initDashboard w order cfg) =
            List.map_filter (\<lambda>r. r)
              (take ((k div BATCH_SIZE + 1) * BATCH_SIZE) (ros[k := Some R])) @ rs) \<and>
         R \<in> set (table_rows (initDashboard w order cfg)) \<and>
         ((\<forall>j < length cfg. j \<noteq> k \<longrightarrow> row_of w j (cfg ! j) = Inr (ros ! j)) \<longrightarrow>
            table_rows (initDashboard w order cfg) =
              List.map_filter (\<lambda>r. r) (ros[k := Some R])) \<and>
         (is_found nv \<longleftrightarrow>
            (\<exists>data x xs. nvd_resp w k = Response True (Some data) \<and>
               get data ''vulnerabilities'' = Inr (Arr (x # xs))) \<and> \<not> ToString_raises cur) \<and>
         (row_of w' k' item = Inr (Some r) \<longrightarrow>
            data_has_vulns r =
              (truthy (opt_get item ''current'') \<and> \<not> ToString_raises (opt_get item ''current'') \<and>
               ((\<exists>ok' data x xs. osv_resp w' k' = Response ok' (Some data) \<and>
                   get data ''vulns'' = Inr (Arr (x # xs))) \<or>
                (\<exists>data x xs. nvd_resp w' k' = Response True (Some data) \<and>
                   get data ''vulnerabilities'' = Inr (Arr (x # xs))))))"
proof -
  let ?item = "cfg ! k"
  let ?m = "(k div BATCH_SIZE + 1) * BATCH_SIZE"
  have osv: "fetchOSVVulnerabilities (osv_resp w k) name cur = Str ''Err''"
    using fetchOSVVulnerabilities_fails [of cur "osv_resp w k" ok name] assms(7,9) by blast
  have task: "run_task w k ?item =
      Inr \<lparr>lifecycle = lc, osvVulns = Str ''Err'', nvdVulns = nv, configItem = ?item\<rparr>"
    using assms(4,5,8) osv
    unfolding assms(10) assms(6)
    by (simp add: run_task_def fetch_item_def fetch_lifecycle_def)
  have nf: "\<not> is_found (Str ''Err'')"
    by (simp add: is_found_def)
  have row: "row_of w k ?item = Inr (Some R)"
    using task assms(11,12) nf
    unfolding assms(13)
    by (simp add: row_of_def render_row_def osv_section_def)
  let ?ros = "ros[k := Some R]"
  have len: "length ?ros = length cfg"
    using assms(2) by simp
  have upto: "\<forall>j < length cfg. 0 \<le> j \<and> j < 0 + (k div BATCH_SIZE + 1) * BATCH_SIZE \<longrightarrow>
      row_of w j (cfg ! j) = Inr (?ros ! j)"
  proof (intro allI impI)
    fix j
    assume j: "j < length cfg" and b: "0 \<le> j \<and> j < 0 + (k div BATCH_SIZE + 1) * BATCH_SIZE"
    show "row_of w j (cfg ! j) = Inr (?ros ! j)"
    proof (cases "j = k")
      case True
      then show ?thesis
        using row assms(1,2) by simp
    next
      case False
      then show ?thesis
        using assms(3) j b by simp
    qed
  qed
  from loop_rows_batches [OF len upto, of order "[]"] obtain rs where
    "table_rows (initDashboard_loop w order cfg 0 []) =
       table_rows [] @ List.map_filter (\<lambda>r. r) (take ?m (drop 0 ?ros)) @ rs"
    by blast
  then have start: "table_rows (initDashboard w order cfg) =
      List.map_filter (\<lambda>r. r) (take ?m ?ros) @ rs"
    by (simp add: initDashboard_def table_rows_simps)
  have "k < ?m"
    by (simp add: BATCH_SIZE_def)
  then have "take ?m ?ros ! k = Some R" and "k < length (take ?m ?ros)"
    using assms(1,2) by simp_all
  then have "Some R \<in> set (take ?m ?ros)"
    by (metis nth_mem)
  then have "R \<in> set (List.map_filter (\<lambda>r. r) (take ?m ?ros))"
    by (force simp: List.map_filter_def)
  then have mem: "R \<in> set (table_rows (initDashboard w order cfg))"
    unfolding start by simp
  have whole: "(\<forall>j < length cfg. j \<noteq> k \<longrightarrow> row_of w j (cfg ! j) = Inr (ros ! j)) \<longrightarrow>
      table_rows (initDashboard w order cfg) = List.map_filter (\<lambda>r. r) ?ros"
  proof
    assume a: "\<forall>j < length cfg. j \<noteq> k \<longrightarrow> row_of w j (cfg ! j) = Inr (ros ! j)"
    have all: "\<forall>j < length cfg. row_of w j (cfg ! j) = Inr (?ros ! j)"
    proof (intro allI impI)
      fix j
      assume j: "j < length cfg"
      show "row_of w j (cfg ! j) = Inr (?ros ! j)"
      proof (cases "j = k")
        case True
        then show ?thesis
          using row assms(1,2) by simp
      next
        case False
        then show ?thesis
          using a j by simp
      qed
    qed
    show "table_rows (initDashboard w order cfg) = List.map_filter (\<lambda>r. r) ?ros"
      using loop_rows [OF len all, of order 0 "[]"]
      by (simp add: initDashboard_def table_rows_simps)
  qed
  have found: "is_found nv \<longleftrightarrow>
      (\<exists>data x xs. nvd_resp w k = Response True (Some data) \<and>
         get data ''vulnerabilities'' = Inr (Arr (x # xs))) \<and> \<not> ToString_raises cur"
    unfolding assms(10) using assms(5,7) by (auto simp: is_found_fetchNVD)
  have gen: "row_of w' k' item = Inr (Some r) \<longrightarrow>
      data_has_vulns r =
        (truthy (opt_get item ''current'') \<and> \<not> ToString_raises (opt_get item ''current'') \<and>
         ((\<exists>ok' data x xs. osv_resp w' k' = Response ok' (Some data) \<and>
             get data ''vulns'' = Inr (Arr (x # xs))) \<or>
          (\<exists>data x xs. nvd_resp w' k' = Response True (Some data) \<and>
             get data ''vulnerabilities'' = Inr (Arr (x # xs)))))"
    using row_of_has_vulns by blast
  from start have start': "\<exists>rs. table_rows (initDashboard w order cfg) =
      List.map_filter (\<lambda>r. r) (take ?m ?ros) @ rs"
    by blast
  from task row start' mem whole found gen show ?thesis
    by blast
qed

lemma source_A_down_row_of:
  "row_of source_A_down_world j example_tool =
     Inr (if j = 7 then None else Some (source_A_down_row j))"
  by (simp add: row_defs source_A_down_world_def example_world_def example_tool_def
      example_lifecycle_def example_lang_def source_A_down_row_def example_header_def
      nvd_advisory_def example_cve_def getNVDSeverity_def metrics_of_def nvd_label_of_def
      capitalize_def toLowerCase_def toUpperCase_def lower_char_def upper_char_def
      getNVDFixedVersion_def nvd_description_def substring100_def)

lemma source_A_down_late_failure_row_of:
  "j \<noteq> 8 \<Longrightarrow> row_of source_A_down_late_failure_world j item =
     row_of source_A_down_world j item"
  by (simp add: row_of_def run_task_def source_A_down_late_failure_world_def
      source_A_down_world_def example_world_def)

text \<open>
  C8, witness: the example configuration of 12 tools with source A down and one record
  from source B for every tool. When the lifecycle body of tool 8, in the second batch,
  does not decode, the table still starts with the rows of tools 0 to 4 and holds the
  row of tool 3. When every lifecycle body decodes, the table holds the row of tool 3
  among the rows of the other tools (tool 7 is skipped). The row of tool 3 has no source
  A advisories and is marked as vulnerable by source B alone; and tool 0 of the first
  example, on which neither source has a record, is not marked.
\<close>

theorem source_A_failure_keeps_tool_witness:
  "(\<exists>rs. table_rows (initDashboard source_A_down_late_failure_world example_order
            (replicate 12 example_tool))
          = map source_A_down_row [0, 1, 2, 3, 4] @ rs) \<and>
   source_A_down_row 3 \<in>
     set (table_rows (initDashboard source_A_down_late_failure_world example_order
       (replicate 12 example_tool))) \<and>
   table_rows (initDashboard source_A_down_world example_order (replicate 12 example_tool))
     = map source_A_down_row [0, 1, 2, 3, 4, 5, 6, 8, 9, 10, 11] \<and>
   osv_advisories (source_A_down_row 3) = [] \<and>
   osv_count (source_A_down_row 3) = 0 \<and>
   data_has_vulns (source_A_down_row 3) \<and>
   \<not> data_has_vulns (example_row 0)"
proof -
  let ?cfg = "replicate 12 example_tool"
  let ?ros = "map (\<lambda>j. if j = 7 then None else Some (source_A_down_row j)) [0..<12]"
  let ?nv = "Arr [example_cve]"
  let ?adv = "\<lparr>adv_id = ''CVE-1'', adv_severity = ''High'', adv_fixed = ''3.1'',
                 adv_description = ''Overflow...''\<rparr>"
  let ?W = source_A_down_world
  let ?L = source_A_down_late_failure_world
  have k: "3 < length ?cfg" and len: "length ?ros = length ?cfg"
    by simp_all
  have all: "\<forall>j < length ?cfg. j \<noteq> 3 \<longrightarrow> row_of ?W j (?cfg ! j) = Inr (?ros ! j)"
    by (simp add: source_A_down_row_of)
  then have others: "\<forall>j < length ?cfg. j \<noteq> 3 \<and> j < (3 div BATCH_SIZE + 1) * BATCH_SIZE \<longrightarrow>
      row_of ?W j (?cfg ! j) = Inr (?ros ! j)"
    by blast
  have others_late: "\<forall>j < length ?cfg. j \<noteq> 3 \<and> j < (3 div BATCH_SIZE + 1) * BATCH_SIZE \<longrightarrow>
      row_of ?L j (?cfg ! j) = Inr (?ros ! j)"
    by (simp add: BATCH_SIZE_def source_A_down_late_failure_row_of source_A_down_row_of)
  have name: "get (?cfg ! 3) ''name'' = Inr (Str ''tool'')" "\<not> ToString_raises (Str ''tool'')"
    by (simp_all add: example_tool_def)
  have cur: "Str ''1'' = opt_get (?cfg ! 3) ''current''" "truthy (Str ''1'')"
    by (simp_all add: example_tool_def)
  have lc: "lifecycle_resp ?W 3 = Response True (Some example_lifecycle)"
    by (simp add: source_A_down_world_def example_world_def)
  have lc_late: "lifecycle_resp ?L 3 = Response True (Some example_lifecycle)"
    by (simp add: source_A_down_late_failure_world_def source_A_down_world_def
        example_world_def)
  have osv: "osv_resp ?W 3 = Rejected \<or> osv_resp ?W 3 = Response True None"
    by (simp add: source_A_down_world_def)
  have osv_late: "osv_resp ?L 3 = Rejected \<or> osv_resp ?L 3 = Response True None"
    by (simp add: source_A_down_late_failure_world_def source_A_down_world_def)
  have nv: "?nv = fetchNVDVulnerabilities (nvd_resp ?W 3) (Str ''tool'') (Str ''1'')"
    by (simp add: source_A_down_world_def example_world_def fetchNVDVulnerabilities_def or_js_def)
  have nv_late: "?nv = fetchNVDVulnerabilities (nvd_resp ?L 3) (Str ''tool'') (Str ''1'')"
    by (simp add: source_A_down_late_failure_world_def source_A_down_world_def
        example_world_def fetchNVDVulnerabilities_def or_js_def)
  have hdr: "render_header (lang ?W) (clock ?W 3) example_lifecycle (?cfg ! 3) =
      Inr (Some example_header)"
    by (simp add: row_defs source_A_down_world_def example_world_def example_tool_def
        example_lifecycle_def example_lang_def example_header_def)
  have same: "lang ?L = lang ?W" "clock ?L = clock ?W"
    by (simp_all add: source_A_down_late_failure_world_def)
  have hdr_late: "render_header (lang ?L) (clock ?L 3) example_lifecycle (?cfg ! 3) =
      Inr (Some example_header)"
    unfolding same by (rule hdr)
  have sec: "nvd_section (lang ?W) ?nv = Inr [?adv]"
    by (simp add: nvd_section_def is_found_def elements_def nvd_advisory_def example_cve_def
        tmpl_def getNVDSeverity_def metrics_of_def nvd_label_of_def or_js_def capitalize_def
        toLowerCase_def toUpperCase_def lower_char_def upper_char_def
        getNVDFixedVersion_def nvd_description_def substring100_def)
  have sec_late: "nvd_section (lang ?L) ?nv = Inr [?adv]"
    unfolding same by (rule sec)
  have R: "source_A_down_row 3 =
      \<lparr>row_index = 3, row_header = example_header, data_has_vulns = is_found ?nv,
       osv_count = 0, osv_advisories = [],
       nvd_count = (if is_found ?nv then length (elements ?nv) else 0),
       nvd_advisories = [?adv]\<rparr>"
    by (simp add: source_A_down_row_def is_found_def elements_def)
  note main = source_A_failure_keeps_tool [OF k len others name cur lc osv nv hdr sec R]
  note late = source_A_failure_keeps_tool
    [OF k len others_late name cur lc_late osv_late nv_late hdr_late sec_late R]
  have upt: "[0..<12] = [0, 1, 2, 3, 4, 5, 6, 7, 8, 9, 10, 11 :: nat]"
    by (simp add: upt_conv_Cons)
  have rows: "List.map_filter (\<lambda>r. r) (?ros[3 := Some (source_A_down_row 3)]) =
      map source_A_down_row [0, 1, 2, 3, 4, 5, 6, 8, 9, 10, 11]"
    unfolding upt by (simp add: List.map_filter_simps)
  have rows5: "List.map_filter (\<lambda>r. r)
        (take ((3 div BATCH_SIZE + 1) * BATCH_SIZE) (?ros[3 := Some (source_A_down_row 3)])) =
      map source_A_down_row [0, 1, 2, 3, 4]"
    unfolding upt by (simp add: List.map_filter_simps BATCH_SIZE_def)
  have 1: "\<exists>rs. table_rows (initDashboard ?L example_order ?cfg) =
      map source_A_down_row [0, 1, 2, 3, 4] @ rs"
    using late [of example_order, THEN conjunct2, THEN conjunct2, THEN conjunct1]
    unfolding rows5 .
  have 2: "source_A_down_row 3 \<in> set (table_rows (initDashboard ?L example_order ?cfg))"
    using late [of example_order, THEN conjunct2, THEN conjunct2, THEN conjunct2,
        THEN conjunct1] .
  have 3: "table_rows (initDashboard ?W example_order ?cfg) =
      map source_A_down_row [0, 1, 2, 3, 4, 5, 6, 8, 9, 10, 11]"
    using main [of example_order, THEN conjunct2, THEN conjunct2, THEN conjunct2,
        THEN conjunct2, THEN conjunct1] all
    unfolding rows by blast
  have 4: "osv_advisories (source_A_down_row 3) = []" "osv_count (source_A_down_row 3) = 0"
    "data_has_vulns (source_A_down_row 3)"
    by (simp_all add: source_A_down_row_def)
  have "row_of example_world 0 example_tool = Inr (Some (example_row 0))"
    by (simp add: example_row_of)
  then have 5: "\<not> data_has_vulns (example_row 0)"
    using main [of _ example_world 0 example_tool "example_row 0",
        THEN conjunct2, THEN conjunct2, THEN conjunct2, THEN conjunct2, THEN conjunct2,
        THEN conjunct2]
    by (simp add: example_world_def example_tool_def)
  from 1 2 3 4 5 show ?thesis
    by blast
qed

end
